theory Spec2Isabelle
  imports Main "HOL-Library.AList"
begin

section \<open>Descriptor model\<close>

text \<open>
  The field kinds of \<open>descriptorpb.FieldDescriptorProto_Type\<close>. Only \<open>TYPE_MESSAGE\<close>
  and \<open>TYPE_GROUP\<close> are aggregate.
\<close>

datatype FieldType =
    TYPE_DOUBLE | TYPE_FLOAT | TYPE_INT64 | TYPE_UINT64 | TYPE_INT32
  | TYPE_FIXED64 | TYPE_FIXED32 | TYPE_BOOL | TYPE_STRING | TYPE_GROUP
  | TYPE_MESSAGE | TYPE_BYTES | TYPE_UINT32 | TYPE_ENUM | TYPE_SFIXED32
  | TYPE_SFIXED64 | TYPE_SINT32 | TYPE_SINT64

text \<open>
  A field descriptor. \<open>TypeName\<close> stays a pointer (an option) because \<open>newParam\<close>
  dereferences it directly; the other attributes are read through their getters.
\<close>

record Field =
  fld_Name :: string
  fld_Type :: FieldType
  fld_TypeName :: "string option"
  fld_Proto3Optional :: bool

definition GetTypeName :: "Field \<Rightarrow> string" where
  "GetTypeName f = (case fld_TypeName f of None \<Rightarrow> [] | Some t \<Rightarrow> t)"

definition isAggregate :: "Field \<Rightarrow> bool" where
  "isAggregate f = (fld_Type f = TYPE_MESSAGE \<or> fld_Type f = TYPE_GROUP)"

text \<open>
  A message: its short name, its fully-qualified name (the value of \<open>FQMN()\<close>) and its
  fields in declaration order.
\<close>

record Message =
  msg_Name :: string
  msg_FQMN :: string
  msg_Fields :: "Field list"

record FieldPathComponent =
  fpc_Name :: string
  fpc_Target :: Field

type_synonym FieldPath = "FieldPathComponent list"

text \<open>The compiled path template of package \<open>httprule\<close>.\<close>

record Template =
  tmpl_Version :: int
  tmpl_OpCodes :: "int list"
  tmpl_Pool :: "string list"
  tmpl_Verb :: string
  tmpl_Fields :: "string list"
  tmpl_Template :: string

datatype error =
    ErrNotKebabCase string string
  | ErrInvalidRole string error
  | ErrGetWithBody string
  | ErrDeleteWithBody string
  | ErrTemplate string
  | ErrClientStreamingPathParam
  | ErrNestedAdditionalBinding string string
  | ErrInvalidFieldAccessList string
  | ErrMessagePathParam string string string
  | ErrNotAggregate string string
  | ErrNoField string string
  | ErrOptionalField string string
  | ErrMessageNotFound string string
  | ErrDuplicateRoute string string "string list"
  | ErrNoTargetService
  | PanicNilDereference

section \<open>HTTP rule and role options\<close>

record CustomHttpPattern =
  chp_Kind :: string
  chp_Path :: string

text \<open>
  The \<open>pattern\<close> oneof of \<open>google.api.HttpRule\<close>. The \<open>custom\<close> case wraps a
  pointer, which may be nil.
\<close>

datatype Pattern =
    PatternUnset
  | Get string
  | Put string
  | Post string
  | Delete string
  | Patch string
  | Custom "CustomHttpPattern option"

datatype HttpRule =
  HttpRule (rule_Pattern: Pattern) (rule_Body: string) (rule_ResponseBody: string)
           (rule_AdditionalBindings: "HttpRule list")

definition GetGet :: "HttpRule \<Rightarrow> string" where
  "GetGet opts = (case rule_Pattern opts of Get p \<Rightarrow> p | _ \<Rightarrow> [])"

definition GetPut :: "HttpRule \<Rightarrow> string" where
  "GetPut opts = (case rule_Pattern opts of Put p \<Rightarrow> p | _ \<Rightarrow> [])"

definition GetPost :: "HttpRule \<Rightarrow> string" where
  "GetPost opts = (case rule_Pattern opts of Post p \<Rightarrow> p | _ \<Rightarrow> [])"

definition GetDelete :: "HttpRule \<Rightarrow> string" where
  "GetDelete opts = (case rule_Pattern opts of Delete p \<Rightarrow> p | _ \<Rightarrow> [])"

definition GetPatch :: "HttpRule \<Rightarrow> string" where
  "GetPatch opts = (case rule_Pattern opts of Patch p \<Rightarrow> p | _ \<Rightarrow> [])"

definition GetCustom :: "HttpRule \<Rightarrow> CustomHttpPattern option" where
  "GetCustom opts = (case rule_Pattern opts of Custom c \<Rightarrow> c | _ \<Rightarrow> None)"

text \<open>The role annotation as it sits in the method options (\<open>myoptions.Role\<close>).\<close>

record RoleOption =
  ro_Resource :: string
  ro_Verb :: string
  ro_Scope :: "string list"

text \<open>The role attached to a resolved method (\<open>descriptor.Role\<close>).\<close>

record Role =
  role_Resource :: string
  role_Scopes :: "string list"
  role_Verb :: string

text \<open>
  Method options: the two extensions read by the code. An absent extension is \<open>None\<close>;
  the extension descriptor fixes the Go type of a present one, so the type assertions of
  \<open>extractRoleOptions\<close> and \<open>extractAPIOptions\<close> cannot fail and have no branch here.
\<close>

record MethodOptions =
  mo_Http :: "HttpRule option"
  mo_Role :: "RoleOption option"

record MethodDescriptorProto =
  md_Name :: string
  md_InputType :: string
  md_OutputType :: string
  md_ClientStreaming :: bool
  md_Options :: "MethodOptions option"

record ServiceDescriptorProto =
  sd_Name :: string
  sd_Method :: "MethodDescriptorProto list"

section \<open>Services, methods and bindings\<close>

text \<open>
  \<open>Service\<close>, \<open>Method\<close>, \<open>Binding\<close> and \<open>Parameter\<close> point at each other in the
  source. Here a back pointer holds the part of its target that exists when the pointer
  is taken: a binding and a parameter carry the method without its binding list, a method
  carries the service without its method list.
\<close>

record ServiceCore =
  svc_Package :: "string option"
  svc_Name :: string
  svc_ForcePrefixedName :: bool

record MethodCore =
  meth_Service :: ServiceCore
  meth_Desc :: MethodDescriptorProto
  meth_RequestType :: Message
  meth_ResponseType :: Message
  meth_Role :: "Role option"

record Body =
  body_FieldPath :: FieldPath

record Parameter =
  param_FieldPath :: FieldPath
  param_Method :: MethodCore
  param_Target :: Field

record Binding =
  bind_Method :: MethodCore
  bind_Index :: nat
  bind_PathTmpl :: Template
  bind_HTTPMethod :: string
  bind_PathParams :: "Parameter list"
  bind_Body :: "Body option"
  bind_ResponseBody :: "Body option"

text \<open>
  \<open>Method.Bindings\<close> is a slice of pointers: an entry may be nil, which is \<open>None\<close>.
\<close>

record Method = MethodCore +
  meth_Bindings :: "Binding option list"

record Service = ServiceCore +
  svc_Methods :: "Method list"

record File =
  file_Name :: string
  file_Package :: "string option"
  file_Service :: "ServiceDescriptorProto list"
  file_Services :: "Service list"

text \<open>
  The registry: the configuration flags read by the resolution code, the table of
  external HTTP rules, the message table behind \<open>LookupMsg\<close>, the method table
  \<open>meths\<close> and the routes registered so far.
\<close>

record Registry =
  reg_standalone :: bool
  reg_generateUnboundMethods :: bool
  reg_warnOnUnboundMethods :: bool
  reg_allowDeleteBody :: bool
  reg_externalHTTPRules :: "string \<Rightarrow> HttpRule list"
  reg_msgs :: "string \<Rightarrow> string \<Rightarrow> Message option"
  reg_meths :: "string \<Rightarrow> Method option"
  reg_annotations :: "(string \<times> string \<times> ServiceCore) list"

text \<open>
  Functions of the repository and of its libraries whose bodies are outside the given
  sources, taken as parameters: \<open>httprule.Parse\<close> followed by \<open>Compile\<close> (the error is
  the parser's message), \<open>IsWellKnownType\<close>, \<open>Service.FQSN\<close>, \<open>Method.FQMN\<close> (of a
  method known by its service and descriptor) and \<open>casing.Camel\<close>.
\<close>

record Deps =
  ext_Parse :: "string \<Rightarrow> string + Template"
  ext_IsWellKnownType :: "string \<Rightarrow> bool"
  ext_FQSN :: "ServiceCore \<Rightarrow> string"
  ext_FQMN :: "ServiceCore \<Rightarrow> MethodDescriptorProto \<Rightarrow> string"
  ext_Camel :: "string \<Rightarrow> string"

text \<open>
  Modelled from the spec: \<open>Registry.LookupMsg\<close> is declared outside the given sources.
  The spec gives its surface: resolve a message by name relative to a location, yielding
  the message or a not-found error.
\<close>

definition LookupMsg :: "Registry \<Rightarrow> string \<Rightarrow> string \<Rightarrow> error + Message" where
  "LookupMsg r location name =
     (case reg_msgs r location name of
        None \<Rightarrow> Inl (ErrMessageNotFound location name)
      | Some m \<Rightarrow> Inr m)"

definition LookupExternalHTTPRules :: "Registry \<Rightarrow> string \<Rightarrow> HttpRule list" where
  "LookupExternalHTTPRules r qualifiedMethodName = reg_externalHTTPRules r qualifiedMethodName"

section \<open>Field path resolution\<close>

text \<open>\<open>strings.Split(s, sep)\<close> for a one-character separator.\<close>

fun split_on :: "char \<Rightarrow> string \<Rightarrow> string list" where
  "split_on sep [] = [[]]"
| "split_on sep (x # xs) =
     (if x = sep then [] # split_on sep xs
      else (let r = split_on sep xs in (x # hd r) # tl r))"

definition lookupField :: "Message \<Rightarrow> string \<Rightarrow> Field option" where
  "lookupField msg name = find (\<lambda>f. fld_Name f = name) (msg_Fields msg)"

text \<open>
  The head of the loop body of \<open>resolveFieldPath\<close>: from the second component on, the
  field resolved last must be aggregate, and its message type becomes the message to
  search.
\<close>

definition descend ::
  "Registry \<Rightarrow> string \<Rightarrow> nat \<Rightarrow> Message \<Rightarrow> FieldPath \<Rightarrow> error + Message" where
  "descend r path i msg result =
     (if i > 0 then
        (let f = fpc_Target (result ! (i - 1)) in
         if isAggregate f then LookupMsg r (msg_FQMN msg) (GetTypeName f)
         else Inl (ErrNotAggregate (fld_Name f) path))
      else Inr msg)"

text \<open>
  The loop of \<open>resolveFieldPath\<close> over the components: \<open>i\<close> is the loop index, \<open>msg\<close>
  the message currently searched and \<open>result\<close> the chain built so far.
\<close>

fun resolve_loop ::
  "Registry \<Rightarrow> Message \<Rightarrow> string \<Rightarrow> bool \<Rightarrow>
   nat \<Rightarrow> Message \<Rightarrow> FieldPath \<Rightarrow> string list \<Rightarrow> error + FieldPath" where
  "resolve_loop r root path isPathParam i msg result [] = Inr result"
| "resolve_loop r root path isPathParam i msg result (c # cs) =
     (case descend r path i msg result of
        Inl e \<Rightarrow> Inl e
      | Inr msg' \<Rightarrow>
          (case lookupField msg' c of
             None \<Rightarrow> Inl (ErrNoField path (msg_Name root))
           | Some f \<Rightarrow>
               if isPathParam \<and> fld_Proto3Optional f
               then Inl (ErrOptionalField (fld_Name f) path)
               else resolve_loop r root path isPathParam (Suc i) msg'
                      (result @ [\<lparr>fpc_Name = c, fpc_Target = f\<rparr>]) cs))"

definition resolveFieldPath ::
  "Registry \<Rightarrow> Message \<Rightarrow> string \<Rightarrow> bool \<Rightarrow> error + FieldPath" where
  "resolveFieldPath r msg path isPathParam =
     (if path = [] then Inr []
      else resolve_loop r msg path isPathParam 0 msg [] (split_on (CHR ''.'') path))"

section \<open>Parameters and bodies\<close>

definition newParam :: "Deps \<Rightarrow> Registry \<Rightarrow> MethodCore \<Rightarrow> string \<Rightarrow> error + Parameter" where
  "newParam D r meth path =
     (let msg = meth_RequestType meth in
      case resolveFieldPath r msg path True of
        Inl e \<Rightarrow> Inl e
      | Inr chain \<Rightarrow>
          (let l = length chain in
           if l = 0 then Inl (ErrInvalidFieldAccessList path)
           else
             (let target = fpc_Target (chain ! (l - 1));
                  ok = Inr \<lparr>param_FieldPath = chain, param_Method = meth,
                            param_Target = fpc_Target (chain ! (l - 1))\<rparr>
              in if isAggregate target then
                   (case fld_TypeName target of
                      None \<Rightarrow> Inl PanicNilDereference
                    | Some tn \<Rightarrow>
                        if ext_IsWellKnownType D tn then ok
                        else Inl (ErrMessagePathParam (svc_Name (meth_Service meth))
                                    (md_Name (meth_Desc meth)) path))
                 else ok)))"

definition newBody :: "Registry \<Rightarrow> MethodCore \<Rightarrow> string \<Rightarrow> error + Body option" where
  "newBody r meth path =
     (if path = [] then Inr None
      else if path = ''*'' then Inr (Some \<lparr>body_FieldPath = []\<rparr>)
      else
        (let msg = meth_RequestType meth in
         case resolveFieldPath r msg path False of
           Inl e \<Rightarrow> Inl e
         | Inr chain \<Rightarrow> Inr (Some \<lparr>body_FieldPath = chain\<rparr>)))"

definition newResponse :: "Registry \<Rightarrow> MethodCore \<Rightarrow> string \<Rightarrow> error + Body option" where
  "newResponse r meth path =
     (let msg = meth_ResponseType meth in
      if path = [] \<or> path = ''*'' then Inr None
      else
        (case resolveFieldPath r msg path False of
           Inl e \<Rightarrow> Inl e
         | Inr chain \<Rightarrow> Inr (Some \<lparr>body_FieldPath = chain\<rparr>)))"

section \<open>Binding construction\<close>

text \<open>
  The \<open>switch\<close> of \<open>newBinding\<close>: the first case whose guard holds decides the verb and
  the path template; \<open>Inr None\<close> is the \<open>default\<close> case, which returns no binding and no
  error.
\<close>

definition selectPattern ::
  "Registry \<Rightarrow> MethodDescriptorProto \<Rightarrow> HttpRule \<Rightarrow> error + (string \<times> string) option" where
  "selectPattern r md opts =
     (if GetGet opts \<noteq> [] then
        (if rule_Body opts \<noteq> [] then Inl (ErrGetWithBody (md_Name md))
         else Inr (Some (''GET'', GetGet opts)))
      else if GetPut opts \<noteq> [] then Inr (Some (''PUT'', GetPut opts))
      else if GetPost opts \<noteq> [] then Inr (Some (''POST'', GetPost opts))
      else if GetDelete opts \<noteq> [] then
        (if rule_Body opts \<noteq> [] \<and> \<not> reg_allowDeleteBody r
         then Inl (ErrDeleteWithBody (md_Name md))
         else Inr (Some (''DELETE'', GetDelete opts)))
      else if GetPatch opts \<noteq> [] then Inr (Some (''PATCH'', GetPatch opts))
      else (case GetCustom opts of
              Some custom \<Rightarrow> Inr (Some (chp_Kind custom, chp_Path custom))
            | None \<Rightarrow> Inr None))"

text \<open>The loop of \<open>newBinding\<close> over the captured fields of the template.\<close>

fun newParams ::
  "Deps \<Rightarrow> Registry \<Rightarrow> MethodCore \<Rightarrow> Parameter list \<Rightarrow> string list \<Rightarrow> error + Parameter list" where
  "newParams D r meth acc [] = Inr acc"
| "newParams D r meth acc (f # fs) =
     (case newParam D r meth f of
        Inl e \<Rightarrow> Inl e
      | Inr param \<Rightarrow> newParams D r meth (acc @ [param]) fs)"

definition newBinding ::
  "Deps \<Rightarrow> Registry \<Rightarrow> MethodCore \<Rightarrow> MethodDescriptorProto \<Rightarrow> HttpRule \<Rightarrow> nat \<Rightarrow>
   error + Binding option" where
  "newBinding D r meth md opts idx =
     (case selectPattern r md opts of
        Inl e \<Rightarrow> Inl e
      | Inr None \<Rightarrow> Inr None
      | Inr (Some (httpMethod, pathTemplate)) \<Rightarrow>
          (case ext_Parse D pathTemplate of
             Inl msg \<Rightarrow> Inl (ErrTemplate msg)
           | Inr tmpl \<Rightarrow>
               if md_ClientStreaming md \<and> length (tmpl_Fields tmpl) > 0
               then Inl ErrClientStreamingPathParam
               else
                 (case newParams D r meth [] (tmpl_Fields tmpl) of
                    Inl e \<Rightarrow> Inl e
                  | Inr params \<Rightarrow>
                      (case newBody r meth (rule_Body opts) of
                         Inl e \<Rightarrow> Inl e
                       | Inr body \<Rightarrow>
                           (case newResponse r meth (rule_ResponseBody opts) of
                              Inl e \<Rightarrow> Inl e
                            | Inr resp \<Rightarrow>
                                Inr (Some \<lparr>bind_Method = meth, bind_Index = idx,
                                           bind_PathTmpl = tmpl,
                                           bind_HTTPMethod = httpMethod,
                                           bind_PathParams = params,
                                           bind_Body = body,
                                           bind_ResponseBody = resp\<rparr>))))))"

text \<open>
  \<open>applyOpts\<close>: the primary rule appends its binding only when it is not nil; the loop
  over \<open>additional_bindings\<close> appends whatever \<open>newBinding\<close> returned.
\<close>

fun applyAdditional ::
  "Deps \<Rightarrow> Registry \<Rightarrow> MethodCore \<Rightarrow> MethodDescriptorProto \<Rightarrow> Binding option list \<Rightarrow>
   HttpRule list \<Rightarrow> error + Binding option list" where
  "applyAdditional D r meth md bindings [] = Inr bindings"
| "applyAdditional D r meth md bindings (additional # rest) =
     (if length (rule_AdditionalBindings additional) > 0
      then Inl (ErrNestedAdditionalBinding (svc_Name (meth_Service meth)) (md_Name md))
      else
        (case newBinding D r meth md additional (length bindings) of
           Inl e \<Rightarrow> Inl e
         | Inr b \<Rightarrow> applyAdditional D r meth md (bindings @ [b]) rest))"

definition applyOpts ::
  "Deps \<Rightarrow> Registry \<Rightarrow> MethodCore \<Rightarrow> MethodDescriptorProto \<Rightarrow> Binding option list \<Rightarrow>
   HttpRule \<Rightarrow> error + Binding option list" where
  "applyOpts D r meth md bindings opts =
     (case newBinding D r meth md opts (length bindings) of
        Inl e \<Rightarrow> Inl e
      | Inr b \<Rightarrow>
          applyAdditional D r meth md
            (if b \<noteq> None then bindings @ [b] else bindings)
            (rule_AdditionalBindings opts))"

fun applyOptsList ::
  "Deps \<Rightarrow> Registry \<Rightarrow> MethodCore \<Rightarrow> MethodDescriptorProto \<Rightarrow> Binding option list \<Rightarrow>
   HttpRule list \<Rightarrow> error + Binding option list" where
  "applyOptsList D r meth md bindings [] = Inr bindings"
| "applyOptsList D r meth md bindings (opts # rest) =
     (case applyOpts D r meth md bindings opts of
        Inl e \<Rightarrow> Inl e
      | Inr bindings' \<Rightarrow> applyOptsList D r meth md bindings' rest)"

definition GetPackage :: "ServiceCore \<Rightarrow> string" where
  "GetPackage svc = (case svc_Package svc of None \<Rightarrow> [] | Some p \<Rightarrow> p)"

definition newMethod ::
  "Deps \<Rightarrow> Registry \<Rightarrow> ServiceCore \<Rightarrow> MethodDescriptorProto \<Rightarrow> HttpRule list \<Rightarrow>
   RoleOption option \<Rightarrow> error + Method" where
  "newMethod D r svc md optsList role =
     (case LookupMsg r (GetPackage svc) (md_InputType md) of
        Inl e \<Rightarrow> Inl e
      | Inr requestType \<Rightarrow>
          (case LookupMsg r (GetPackage svc) (md_OutputType md) of
             Inl e \<Rightarrow> Inl e
           | Inr responseType \<Rightarrow>
               (let meth = \<lparr>meth_Service = svc, meth_Desc = md,
                            meth_RequestType = requestType,
                            meth_ResponseType = responseType,
                            meth_Role =
                              (case role of
                                 None \<Rightarrow> None
                               | Some ro \<Rightarrow>
                                   Some \<lparr>role_Resource = ro_Resource ro,
                                         role_Scopes = ro_Scope ro,
                                         role_Verb = ro_Verb ro\<rparr>)\<rparr>
                in case applyOptsList D r meth md [] optsList of
                     Inl e \<Rightarrow> Inl e
                   | Inr bindings \<Rightarrow>
                       Inr (MethodCore.extend meth (Method.fields bindings)))))"

section \<open>Role extraction\<close>

text \<open>
  Regular expressions, as far as \<open>kebabCaseRegex\<close> needs them: character classes given
  by ranges, literal characters, concatenation, \<open>*\<close> and \<open>+\<close>. Matching is by
  derivatives.
\<close>

datatype regexp =
    Null
  | Eps
  | Lit char
  | Class "(char \<times> char) list"
  | Cat regexp regexp
  | Star regexp
  | Plus regexp

fun in_class :: "char \<Rightarrow> (char \<times> char) list \<Rightarrow> bool" where
  "in_class c [] = False"
| "in_class c ((lo, hi) # rs) =
     (((of_char lo :: nat) \<le> of_char c \<and> (of_char c :: nat) \<le> of_char hi) \<or> in_class c rs)"

fun nullable :: "regexp \<Rightarrow> bool" where
  "nullable Null = False"
| "nullable Eps = True"
| "nullable (Lit c) = False"
| "nullable (Class rs) = False"
| "nullable (Cat r s) = (nullable r \<and> nullable s)"
| "nullable (Star r) = True"
| "nullable (Plus r) = nullable r"

fun deriv :: "char \<Rightarrow> regexp \<Rightarrow> regexp list" where
  "deriv c Null = []"
| "deriv c Eps = []"
| "deriv c (Lit d) = (if c = d then [Eps] else [])"
| "deriv c (Class rs) = (if in_class c rs then [Eps] else [])"
| "deriv c (Cat r s) =
     map (\<lambda>r'. Cat r' s) (deriv c r) @ (if nullable r then deriv c s else [])"
| "deriv c (Star r) = map (\<lambda>r'. Cat r' (Star r)) (deriv c r)"
| "deriv c (Plus r) = map (\<lambda>r'. Cat r' (Star r)) (deriv c r)"

text \<open>
  A list of expressions stands for their alternation. \<open>fullMatch r s\<close> holds when the
  whole of \<open>s\<close> matches \<open>r\<close>.
\<close>

fun matchAny :: "regexp list \<Rightarrow> string \<Rightarrow> bool" where
  "matchAny rs [] = list_ex nullable rs"
| "matchAny rs (c # cs) = matchAny (remdups (concat (map (deriv c) rs))) cs"

definition fullMatch :: "regexp \<Rightarrow> string \<Rightarrow> bool" where
  "fullMatch r s = matchAny [r] s"

text \<open>
  \<open>kebabCaseRegex\<close> is \<^verbatim>\<open>^[a-z][a-z0-9]*(-[a-z0-9]+)*$\<close>. The pattern is anchored at
  both ends, so \<open>MatchString\<close> on it is a match of the whole string against the part
  between the anchors.
\<close>

definition kebabCaseRegex :: regexp where
  "kebabCaseRegex =
     Cat (Class [(CHR ''a'', CHR ''z'')])
       (Cat (Star (Class [(CHR ''a'', CHR ''z''), (CHR ''0'', CHR ''9'')]))
            (Star (Cat (Lit CHR ''-'')
                       (Plus (Class [(CHR ''a'', CHR ''z''), (CHR ''0'', CHR ''9'')])))))"

definition MatchString :: "regexp \<Rightarrow> string \<Rightarrow> bool" where
  "MatchString re s = fullMatch re s"

text \<open>\<open>validateKebabCase\<close> returns an error or nil; nil is \<open>None\<close>.\<close>

definition validateKebabCase :: "string \<Rightarrow> string \<Rightarrow> error option" where
  "validateKebabCase field val =
     (if val = [] then None
      else if \<not> MatchString kebabCaseRegex val then Some (ErrNotKebabCase field val)
      else None)"

text \<open>The decimal rendering of \<open>%d\<close> for a non-negative index.\<close>

definition digit_char :: "nat \<Rightarrow> char" where
  "digit_char n = ''0123456789'' ! n"

function string_of_nat :: "nat \<Rightarrow> string" where
  "string_of_nat n =
     (if n < 10 then [digit_char n]
      else string_of_nat (n div 10) @ [digit_char (n mod 10)])"
  by pat_completeness auto
termination
  by (relation "measure id") auto

declare string_of_nat.simps [simp del]

text \<open>The loop of \<open>extractRoleOptions\<close> over the scopes, \<open>i\<close> the index.\<close>

fun validateScopes :: "string \<Rightarrow> nat \<Rightarrow> string list \<Rightarrow> error option" where
  "validateScopes methName i [] = None"
| "validateScopes methName i (scope # rest) =
     (case validateKebabCase (''scope['' @ string_of_nat i @ '']'') scope of
        Some err \<Rightarrow> Some (ErrInvalidRole methName err)
      | None \<Rightarrow> validateScopes methName (Suc i) rest)"

definition extractRoleOptions :: "MethodDescriptorProto \<Rightarrow> error + RoleOption option" where
  "extractRoleOptions meth =
     (case md_Options meth of
        None \<Rightarrow> Inr None
      | Some options \<Rightarrow>
          (case mo_Role options of
             None \<Rightarrow> Inr None
           | Some role \<Rightarrow>
               (case validateKebabCase ''resource'' (ro_Resource role) of
                  Some err \<Rightarrow> Inl (ErrInvalidRole (md_Name meth) err)
                | None \<Rightarrow>
                    (case validateKebabCase ''verb'' (ro_Verb role) of
                       Some err \<Rightarrow> Inl (ErrInvalidRole (md_Name meth) err)
                     | None \<Rightarrow>
                         (case validateScopes (md_Name meth) 0 (ro_Scope role) of
                            Some e \<Rightarrow> Inl e
                          | None \<Rightarrow> Inr (Some role))))))"

definition extractAPIOptions :: "MethodDescriptorProto \<Rightarrow> error + HttpRule option" where
  "extractAPIOptions meth =
     (case md_Options meth of
        None \<Rightarrow> Inr None
      | Some options \<Rightarrow>
          (case mo_Http options of
             None \<Rightarrow> Inr None
           | Some opts \<Rightarrow> Inr (Some opts)))"

section \<open>Loading services\<close>

definition TrimPrefix :: "string \<Rightarrow> string \<Rightarrow> string" where
  "TrimPrefix s pre = (if take (length pre) s = pre then drop (length pre) s else s)"

definition defaultAPIOptions ::
  "Deps \<Rightarrow> ServiceCore \<Rightarrow> MethodDescriptorProto \<Rightarrow> error + HttpRule" where
  "defaultAPIOptions D svc md =
     (let fqsn = TrimPrefix (ext_FQSN D svc) ''.'' in
      Inr (HttpRule (Post (''/'' @ fqsn @ ''/'' @ md_Name md)) ''*'' [] []))"

text \<open>
  The rule list of one method in \<open>loadServices\<close>: the external rules, then the inline
  rule, and the default rule when there is none and \<open>generateUnboundMethods\<close> is set.
\<close>

definition gatherOpts ::
  "Deps \<Rightarrow> Registry \<Rightarrow> ServiceCore \<Rightarrow> MethodDescriptorProto \<Rightarrow> HttpRule option \<Rightarrow>
   error + HttpRule list" where
  "gatherOpts D r svc md opts =
     (let optsList = LookupExternalHTTPRules r (ext_FQMN D svc md);
          optsList = (case opts of Some inline \<Rightarrow> optsList @ [inline] | None \<Rightarrow> optsList)
      in if length optsList = 0 then
           (if reg_generateUnboundMethods r then
              (case defaultAPIOptions D svc md of
                 Inl e \<Rightarrow> Inl e
               | Inr defaultOpts \<Rightarrow> Inr (optsList @ [defaultOpts]))
            else Inr optsList)
         else Inr optsList)"

text \<open>
  The inner loop of \<open>loadServices\<close> over the methods of a service: \<open>methods\<close> is
  \<open>svc.Methods\<close> so far, and the registry gains each method under its FQMN.
\<close>

fun loadMethods ::
  "Deps \<Rightarrow> Registry \<Rightarrow> ServiceCore \<Rightarrow> Method list \<Rightarrow> MethodDescriptorProto list \<Rightarrow>
   error + (Method list \<times> Registry)" where
  "loadMethods D r svc methods [] = Inr (methods, r)"
| "loadMethods D r svc methods (md # mds) =
     (case extractAPIOptions md of
        Inl e \<Rightarrow> Inl e
      | Inr opts \<Rightarrow>
          (case extractRoleOptions md of
             Inl e \<Rightarrow> Inl e
           | Inr role \<Rightarrow>
               (case gatherOpts D r svc md opts of
                  Inl e \<Rightarrow> Inl e
                | Inr optsList \<Rightarrow>
                    (case newMethod D r svc md optsList role of
                       Inl e \<Rightarrow> Inl e
                     | Inr meth \<Rightarrow>
                         loadMethods D
                           (r\<lparr>reg_meths := (reg_meths r)(ext_FQMN D svc md \<mapsto> meth)\<rparr>)
                           svc (methods @ [meth]) mds))))"

text \<open>The outer loop over the services of the file; a service without methods is skipped.\<close>

fun loadServiceList ::
  "Deps \<Rightarrow> Registry \<Rightarrow> File \<Rightarrow> Service list \<Rightarrow> ServiceDescriptorProto list \<Rightarrow>
   error + (Service list \<times> Registry)" where
  "loadServiceList D r file svcs [] = Inr (svcs, r)"
| "loadServiceList D r file svcs (sd # sds) =
     (let svc = \<lparr>svc_Package = file_Package file, svc_Name = sd_Name sd,
                 svc_ForcePrefixedName = reg_standalone r\<rparr>
      in case loadMethods D r svc [] (sd_Method sd) of
           Inl e \<Rightarrow> Inl e
         | Inr (methods, r') \<Rightarrow>
             if length methods = 0 then loadServiceList D r' file svcs sds
             else loadServiceList D r' file
                    (svcs @ [ServiceCore.extend svc (Service.fields methods)]) sds)"

definition loadServices :: "Deps \<Rightarrow> Registry \<Rightarrow> File \<Rightarrow> error + (File \<times> Registry)" where
  "loadServices D r file =
     (case loadServiceList D r file [] (file_Service file) of
        Inl e \<Rightarrow> Inl e
      | Inr (svcs, r') \<Rightarrow> Inr (file\<lparr>file_Services := svcs\<rparr>, r'))"

section \<open>Query parameters\<close>

fun Join :: "string list \<Rightarrow> string \<Rightarrow> string" where
  "Join [] sep = []"
| "Join [x] sep = x"
| "Join (x # y # zs) sep = x @ sep @ Join (y # zs) sep"

text \<open>
  Modelled from the spec: \<open>FieldPath.String\<close> is declared outside the given sources. The
  spec writes a field path as the dotted sequence of its components, so the string is the
  component names joined by a dot.
\<close>

definition FieldPath_String :: "FieldPath \<Rightarrow> string" where
  "FieldPath_String p = Join (map fpc_Name p) ''.''"

text \<open>
  A Go \<open>map[string]bool\<close> is an association list with distinct keys: \<open>AList.update\<close>
  stores, \<open>AList.delete\<close> deletes, \<open>map_of\<close> looks up, the length is \<open>len\<close>.
\<close>

type_synonym fieldmap = "(string \<times> bool) list"

definition HasQueryParam :: "Binding option \<Rightarrow> error + bool" where
  "HasQueryParam ob =
     (case ob of
        None \<Rightarrow> Inl PanicNilDereference
      | Some b \<Rightarrow>
          if (case bind_Body b of
                Some body \<Rightarrow> length (body_FieldPath body) = 0
              | None \<Rightarrow> False)
          then Inr False
          else
            (let fieldmap0 = foldl (\<lambda>m f. AList.update (fld_Name f) True m) ([] :: fieldmap)
                               (msg_Fields (meth_RequestType (bind_Method b)));
                 fieldmap1 = (case bind_Body b of
                                Some body \<Rightarrow>
                                  AList.delete (FieldPath_String (body_FieldPath body)) fieldmap0
                              | None \<Rightarrow> fieldmap0);
                 fieldmap2 = foldl (\<lambda>m p. AList.delete (FieldPath_String (param_FieldPath p)) m)
                               fieldmap1 (bind_PathParams b)
             in Inr (length fieldmap2 > 0)))"

text \<open>The last loop of \<open>hasQueryParams\<close>: return at the first field still in the map.\<close>

fun anyRemaining :: "fieldmap \<Rightarrow> Field list \<Rightarrow> bool" where
  "anyRemaining fieldmap [] = False"
| "anyRemaining fieldmap (f # fs) =
     (let val = fld_Name f in
      if map_of fieldmap val \<noteq> None then True else anyRemaining fieldmap fs)"

definition hasQueryParams :: "Method \<Rightarrow> error + bool" where
  "hasQueryParams m =
     (if length (meth_Bindings m) = 0 then Inr False
      else
        (case meth_Bindings m ! 0 of
           None \<Rightarrow> Inl PanicNilDereference
         | Some b \<Rightarrow>
             if (case bind_Body b of
                   Some body \<Rightarrow> length (body_FieldPath body) = 0
                 | None \<Rightarrow> False)
             then Inr False
             else
               (let fieldmap0 = foldl (\<lambda>m f. AList.update (fld_Name f) True m) ([] :: fieldmap)
                                  (msg_Fields (meth_RequestType (bind_Method b)));
                    fieldmap1 = (case bind_Body b of
                                   Some body \<Rightarrow>
                                     AList.delete (FieldPath_String (body_FieldPath body)) fieldmap0
                                 | None \<Rightarrow> fieldmap0);
                    fieldmap2 = foldl (\<lambda>m p. AList.delete (FieldPath_String (param_FieldPath p)) m)
                                  fieldmap1 (bind_PathParams b)
                in Inr (anyRemaining fieldmap2
                          (msg_Fields (meth_RequestType (bind_Method b)))))))"

text \<open>The last loop of \<open>getQueryParams\<close>: append every field still in the map.\<close>

fun collectRemaining :: "fieldmap \<Rightarrow> string list \<Rightarrow> Field list \<Rightarrow> string list" where
  "collectRemaining fieldmap list [] = list"
| "collectRemaining fieldmap list (f # fs) =
     (let val = fld_Name f in
      if map_of fieldmap val \<noteq> None then collectRemaining fieldmap (list @ [val]) fs
      else collectRemaining fieldmap list fs)"

definition getQueryParams :: "Method \<Rightarrow> error + string list" where
  "getQueryParams m =
     (let list = [] in
      if length (meth_Bindings m) = 0 then Inr list
      else
        (case meth_Bindings m ! 0 of
           None \<Rightarrow> Inl PanicNilDereference
         | Some b \<Rightarrow>
             if (case bind_Body b of
                   Some body \<Rightarrow> length (body_FieldPath body) = 0
                 | None \<Rightarrow> False)
             then Inr list
             else
               (let fieldmap0 = foldl (\<lambda>m f. AList.update (fld_Name f) True m) ([] :: fieldmap)
                                  (msg_Fields (meth_RequestType (bind_Method b)));
                    fieldmap1 = (case bind_Body b of
                                   Some body \<Rightarrow>
                                     AList.delete (FieldPath_String (body_FieldPath body)) fieldmap0
                                 | None \<Rightarrow> fieldmap0);
                    fieldmap2 = foldl (\<lambda>m p. AList.delete (FieldPath_String (param_FieldPath p)) m)
                                  fieldmap1 (bind_PathParams b)
                in Inr (collectRemaining fieldmap2 list
                          (msg_Fields (meth_RequestType (bind_Method b)))))))"

section \<open>Duplicate routes\<close>

text \<open>
  The methods of a service that hold a binding with the given verb and compiled template
  string, by name, in the order of the service.
\<close>

definition hasRoute :: "string \<Rightarrow> string \<Rightarrow> Method \<Rightarrow> bool" where
  "hasRoute httpMethod httpTemplate m =
     list_ex (\<lambda>ob. case ob of
                     None \<Rightarrow> False
                   | Some b \<Rightarrow> bind_HTTPMethod b = httpMethod \<and>
                               tmpl_Template (bind_PathTmpl b) = httpTemplate)
             (meth_Bindings m)"

definition methodsWithRoute :: "Service \<Rightarrow> string \<Rightarrow> string \<Rightarrow> string list" where
  "methodsWithRoute svc httpMethod httpTemplate =
     map (\<lambda>m. md_Name (meth_Desc m)) (filter (hasRoute httpMethod httpTemplate) (svc_Methods svc))"

text \<open>
  Modelled from the spec: \<open>Registry.CheckDuplicateAnnotation\<close> is declared outside the
  given sources; only its call in \<open>applyTemplate\<close> is there, with the verb, the compiled
  template string and the service. The spec: the pair of verb and compiled template is
  checked against all bindings already registered for the owning service in the current
  run; a repeat is rejected as a duplicate-route error naming both colliding methods.
  The call passes no method, so the error names the methods of the service that hold the
  route.
\<close>

definition CheckDuplicateAnnotation ::
  "Registry \<Rightarrow> string \<Rightarrow> string \<Rightarrow> Service \<Rightarrow> error + Registry" where
  "CheckDuplicateAnnotation r httpMethod httpTemplate svc =
     (let a = (httpMethod, httpTemplate, ServiceCore.truncate svc) in
      if a \<in> set (reg_annotations r)
      then Inl (ErrDuplicateRoute httpMethod httpTemplate
                  (methodsWithRoute svc httpMethod httpTemplate))
      else Inr (r\<lparr>reg_annotations := reg_annotations r @ [a]\<rparr>))"

text \<open>
  The loops of \<open>applyTemplate\<close> that register the routes. The innermost runs over the
  bindings of one method; \<open>seen\<close> is \<open>methodWithBindingsSeen\<close>.
\<close>

fun checkBindings ::
  "Registry \<Rightarrow> Service \<Rightarrow> bool \<Rightarrow> Binding option list \<Rightarrow> error + (bool \<times> Registry)" where
  "checkBindings r svc seen [] = Inr (seen, r)"
| "checkBindings r svc seen (ob # bs) =
     (case ob of
        None \<Rightarrow> Inl PanicNilDereference
      | Some b \<Rightarrow>
          (case CheckDuplicateAnnotation r (bind_HTTPMethod b)
                  (tmpl_Template (bind_PathTmpl b)) svc of
             Inl e \<Rightarrow> Inl e
           | Inr r' \<Rightarrow> checkBindings r' svc True bs))"

text \<open>
  The loop over the methods of a service. Each method is renamed in place before its
  bindings are checked: \<open>done\<close> are the methods already renamed, and the service handed
  to the check holds them, the current method renamed, and the rest as they were. The
  copies of a method kept behind the back pointers of its bindings keep the old name.
\<close>

fun checkMethods ::
  "Deps \<Rightarrow> Registry \<Rightarrow> ServiceCore \<Rightarrow> Method list \<Rightarrow> bool \<Rightarrow> Method list \<Rightarrow>
   error + (Method list \<times> bool \<times> Registry)" where
  "checkMethods D r svc done seen [] = Inr (done, seen, r)"
| "checkMethods D r svc done seen (meth # rest) =
     (let meth' = meth\<lparr>meth_Desc := (meth_Desc meth)\<lparr>md_Name := ext_Camel D (md_Name (meth_Desc meth))\<rparr>\<rparr>;
          svc' = ServiceCore.extend svc (Service.fields (done @ meth' # rest))
      in case checkBindings r svc' seen (meth_Bindings meth') of
           Inl e \<Rightarrow> Inl e
         | Inr (seen', r') \<Rightarrow> checkMethods D r' svc (done @ [meth']) seen' rest)"

fun checkServices ::
  "Deps \<Rightarrow> Registry \<Rightarrow> Service list \<Rightarrow> Service list \<Rightarrow> error + (Service list \<times> Registry)" where
  "checkServices D r targetServices [] = Inr (targetServices, r)"
| "checkServices D r targetServices (svc # rest) =
     (let core = (ServiceCore.truncate svc)\<lparr>svc_Name := ext_Camel D (svc_Name svc)\<rparr> in
      case checkMethods D r core [] False (svc_Methods svc) of
        Inl e \<Rightarrow> Inl e
      | Inr (methods, seen, r') \<Rightarrow>
          checkServices D r'
            (if seen then targetServices @ [ServiceCore.extend core (Service.fields methods)]
             else targetServices)
            rest)"

text \<open>
  \<open>applyTemplate\<close> up to the execution of the text template: the target services, or the
  first error.
\<close>

definition applyTemplate :: "Deps \<Rightarrow> Registry \<Rightarrow> File \<Rightarrow> error + (Service list \<times> Registry)" where
  "applyTemplate D reg p =
     (case checkServices D reg [] (file_Services p) of
        Inl e \<Rightarrow> Inl e
      | Inr (targetServices, reg') \<Rightarrow>
          if length targetServices = 0 then Inl ErrNoTargetService
          else Inr (targetServices, reg'))"

section \<open>Notions used in the statements\<close>

text \<open>
  The two errors by which \<open>newBinding\<close> rejects a rule because of its body: the GET rule
  with a body and the DELETE rule with a body.
\<close>

fun bodyRuleError :: "error \<Rightarrow> bool" where
  "bodyRuleError (ErrGetWithBody n) = True"
| "bodyRuleError (ErrDeleteWithBody n) = True"
| "bodyRuleError e = False"

text \<open>A binding whose body is the whole request message (body rule \<open>*\<close>).\<close>

definition wholeMessageBody :: "Binding \<Rightarrow> bool" where
  "wholeMessageBody b =
     (case bind_Body b of Some body \<Rightarrow> length (body_FieldPath body) = 0 | None \<Rightarrow> False)"

text \<open>
  The query parameters as the specification words them: the names of the direct fields of
  the request message, in declaration order, without the field named by the body field
  path (when the binding has a non-empty body path) and without the field path of any
  path parameter.
\<close>

definition specQueryParams :: "Binding \<Rightarrow> string list" where
  "specQueryParams b =
     filter (\<lambda>n. (case bind_Body b of
                     Some body \<Rightarrow> body_FieldPath body = [] \<or> n \<noteq> FieldPath_String (body_FieldPath body)
                   | None \<Rightarrow> True)
                \<and> n \<notin> set (map (\<lambda>p. FieldPath_String (param_FieldPath p)) (bind_PathParams b)))
            (map fld_Name (msg_Fields (meth_RequestType (bind_Method b))))"

text \<open>A value that role validation accepts: empty, or matching \<open>kebabCaseRegex\<close>.\<close>

definition kebabOrEmpty :: "string \<Rightarrow> bool" where
  "kebabOrEmpty v = (v = [] \<or> MatchString kebabCaseRegex v)"

text \<open>
  The language of a regular expression, to state what the matcher decides: concatenation
  and iteration of languages, and the words left after a first character.
\<close>

definition seqLang :: "string set \<Rightarrow> string set \<Rightarrow> string set" where
  "seqLang A B = {xs @ ys |xs ys. xs \<in> A \<and> ys \<in> B}"

inductive_set starLang :: "string set \<Rightarrow> string set" for A :: "string set" where
  starLang_Nil: "[] \<in> starLang A"
| starLang_step: "a \<in> A \<Longrightarrow> w \<in> starLang A \<Longrightarrow> a @ w \<in> starLang A"

fun lang :: "regexp \<Rightarrow> string set" where
  "lang Null = {}"
| "lang Eps = {[]}"
| "lang (Lit c) = {[c]}"
| "lang (Class rs) = {[c] |c. in_class c rs}"
| "lang (Cat r s) = seqLang (lang r) (lang s)"
| "lang (Star r) = starLang (lang r)"
| "lang (Plus r) = seqLang (lang r) (starLang (lang r))"

definition tails :: "char \<Rightarrow> string set \<Rightarrow> string set" where
  "tails c L = {w. c # w \<in> L}"

section \<open>Example data\<close>

definition scalarField :: "string \<Rightarrow> Field" where
  "scalarField n =
     \<lparr>fld_Name = n, fld_Type = TYPE_STRING, fld_TypeName = None, fld_Proto3Optional = False\<rparr>"

definition messageField :: "string \<Rightarrow> string \<Rightarrow> Field" where
  "messageField n t =
     \<lparr>fld_Name = n, fld_Type = TYPE_MESSAGE, fld_TypeName = Some t, fld_Proto3Optional = False\<rparr>"

definition optionalField :: "string \<Rightarrow> Field" where
  "optionalField n =
     \<lparr>fld_Name = n, fld_Type = TYPE_STRING, fld_TypeName = None, fld_Proto3Optional = True\<rparr>"

definition ex_Inner :: Message where
  "ex_Inner = \<lparr>msg_Name = ''Inner'', msg_FQMN = ''.shop.Inner'',
               msg_Fields = [scalarField ''c'']\<rparr>"

definition ex_Middle :: Message where
  "ex_Middle = \<lparr>msg_Name = ''Middle'', msg_FQMN = ''.shop.Middle'',
                msg_Fields = [messageField ''b'' ''.shop.Inner'']\<rparr>"

definition ex_Request :: Message where
  "ex_Request = \<lparr>msg_Name = ''ItemRequest'', msg_FQMN = ''.shop.ItemRequest'',
                 msg_Fields = [scalarField ''id'', scalarField ''name'', scalarField ''filter'']\<rparr>"

definition ex_Deep :: Message where
  "ex_Deep = \<lparr>msg_Name = ''DeepRequest'', msg_FQMN = ''.shop.DeepRequest'',
              msg_Fields = [messageField ''a'' ''.shop.Middle'',
                            messageField ''ts'' ''.google.protobuf.Timestamp'',
                            optionalField ''opt'']\<rparr>"

definition ex_Response :: Message where
  "ex_Response = \<lparr>msg_Name = ''ItemResponse'', msg_FQMN = ''.shop.ItemResponse'',
                  msg_Fields = [scalarField ''item'']\<rparr>"

definition ex_msgs :: "string \<Rightarrow> string \<Rightarrow> Message option" where
  "ex_msgs location name =
     (if name = ''.shop.Inner'' then Some ex_Inner
      else if name = ''.shop.Middle'' then Some ex_Middle
      else if name = ''.shop.ItemRequest'' then Some ex_Request
      else if name = ''.shop.DeepRequest'' then Some ex_Deep
      else if name = ''.shop.ItemResponse'' then Some ex_Response
      else None)"

definition ex_Registry :: Registry where
  "ex_Registry =
     \<lparr>reg_standalone = False, reg_generateUnboundMethods = True,
      reg_warnOnUnboundMethods = False, reg_allowDeleteBody = False,
      reg_externalHTTPRules = (\<lambda>n. []), reg_msgs = ex_msgs,
      reg_meths = (\<lambda>n. None), reg_annotations = []\<rparr>"

text \<open>
  A stand-in for the template compiler: it knows one template with a capture group and
  takes every other template as a literal.
\<close>

definition ex_Parse :: "string \<Rightarrow> string + Template" where
  "ex_Parse p =
     Inr \<lparr>tmpl_Version = 1, tmpl_OpCodes = [], tmpl_Pool = [], tmpl_Verb = [],
          tmpl_Fields = (if p = ''/v1/items/{id}'' then [''id''] else []),
          tmpl_Template = p\<rparr>"

definition ex_FQSN :: "ServiceCore \<Rightarrow> string" where
  "ex_FQSN svc = ''.'' @ GetPackage svc @ ''.'' @ svc_Name svc"

definition ex_Deps :: Deps where
  "ex_Deps =
     \<lparr>ext_Parse = ex_Parse,
      ext_IsWellKnownType = (\<lambda>t. t = ''.google.protobuf.Timestamp''),
      ext_FQSN = ex_FQSN,
      ext_FQMN = (\<lambda>svc md. ex_FQSN svc @ ''.'' @ md_Name md),
      ext_Camel = (\<lambda>s. s)\<rparr>"

definition ex_Service :: ServiceCore where
  "ex_Service = \<lparr>svc_Package = Some ''shop'', svc_Name = ''Items'',
                 svc_ForcePrefixedName = False\<rparr>"

definition ex_Md :: MethodDescriptorProto where
  "ex_Md = \<lparr>md_Name = ''ListItems'', md_InputType = ''.shop.ItemRequest'',
            md_OutputType = ''.shop.ItemResponse'', md_ClientStreaming = False,
            md_Options = None\<rparr>"

definition ex_Meth :: MethodCore where
  "ex_Meth = \<lparr>meth_Service = ex_Service, meth_Desc = ex_Md,
              meth_RequestType = ex_Request, meth_ResponseType = ex_Response,
              meth_Role = None\<rparr>"

definition ex_DeepMd :: MethodDescriptorProto where
  "ex_DeepMd = \<lparr>md_Name = ''GetDeep'', md_InputType = ''.shop.DeepRequest'',
                md_OutputType = ''.shop.ItemResponse'', md_ClientStreaming = False,
                md_Options = None\<rparr>"

definition ex_DeepMeth :: MethodCore where
  "ex_DeepMeth = \<lparr>meth_Service = ex_Service, meth_Desc = ex_DeepMd,
                  meth_RequestType = ex_Deep, meth_ResponseType = ex_Response,
                  meth_Role = None\<rparr>"

definition ex_GetBinding :: Binding where
  "ex_GetBinding =
     \<lparr>bind_Method = ex_Meth, bind_Index = 0,
      bind_PathTmpl = \<lparr>tmpl_Version = 1, tmpl_OpCodes = [], tmpl_Pool = [], tmpl_Verb = [],
                       tmpl_Fields = [''id''], tmpl_Template = ''/v1/items/{id}''\<rparr>,
      bind_HTTPMethod = ''GET'',
      bind_PathParams =
        [\<lparr>param_FieldPath = [\<lparr>fpc_Name = ''id'', fpc_Target = scalarField ''id''\<rparr>],
          param_Method = ex_Meth, param_Target = scalarField ''id''\<rparr>],
      bind_Body = None, bind_ResponseBody = None\<rparr>"

definition ex_GetMethod :: Method where
  "ex_GetMethod = MethodCore.extend ex_Meth (Method.fields [Some ex_GetBinding])"

definition ex_PostBinding :: Binding where
  "ex_PostBinding =
     \<lparr>bind_Method = ex_Meth, bind_Index = 0,
      bind_PathTmpl = \<lparr>tmpl_Version = 1, tmpl_OpCodes = [], tmpl_Pool = [], tmpl_Verb = [],
                       tmpl_Fields = [], tmpl_Template = ''/v1/items''\<rparr>,
      bind_HTTPMethod = ''POST'', bind_PathParams = [],
      bind_Body = Some \<lparr>body_FieldPath = []\<rparr>, bind_ResponseBody = None\<rparr>"

definition ex_PostMethod :: Method where
  "ex_PostMethod = MethodCore.extend ex_Meth (Method.fields [Some ex_PostBinding])"

definition ex_RoleMd :: "RoleOption \<Rightarrow> MethodDescriptorProto" where
  "ex_RoleMd role =
     \<lparr>md_Name = ''ListItems'', md_InputType = ''.shop.ItemRequest'',
      md_OutputType = ''.shop.ItemResponse'', md_ClientStreaming = False,
      md_Options = Some \<lparr>mo_Http = None, mo_Role = Some role\<rparr>\<rparr>"

definition ex_FindMd :: MethodDescriptorProto where
  "ex_FindMd = \<lparr>md_Name = ''FindItems'', md_InputType = ''.shop.ItemRequest'',
                md_OutputType = ''.shop.ItemResponse'', md_ClientStreaming = False,
                md_Options = None\<rparr>"

definition ex_ListBinding :: Binding where
  "ex_ListBinding =
     \<lparr>bind_Method = ex_Meth, bind_Index = 0,
      bind_PathTmpl = \<lparr>tmpl_Version = 1, tmpl_OpCodes = [], tmpl_Pool = [], tmpl_Verb = [],
                       tmpl_Fields = [], tmpl_Template = ''/v1/items''\<rparr>,
      bind_HTTPMethod = ''GET'', bind_PathParams = [],
      bind_Body = None, bind_ResponseBody = None\<rparr>"

definition ex_ListMethod :: Method where
  "ex_ListMethod = MethodCore.extend ex_Meth (Method.fields [Some ex_ListBinding])"

definition ex_FindMethod :: Method where
  "ex_FindMethod =
     MethodCore.extend (ex_Meth\<lparr>meth_Desc := ex_FindMd\<rparr>)
       (Method.fields [Some (ex_ListBinding\<lparr>bind_Method := ex_Meth\<lparr>meth_Desc := ex_FindMd\<rparr>\<rparr>)])"

definition ex_DupService :: Service where
  "ex_DupService = ServiceCore.extend ex_Service (Service.fields [ex_ListMethod, ex_FindMethod])"

definition ex_DupFile :: File where
  "ex_DupFile = \<lparr>file_Name = ''shop/items.proto'', file_Package = Some ''shop'',
                 file_Service = [], file_Services = [ex_DupService]\<rparr>"

section \<open>Errors of the resolution steps\<close>

lemma LookupMsg_not_bodyRuleError:
  "LookupMsg r loc name = Inl e \<Longrightarrow> \<not> bodyRuleError e"
  by (auto simp: LookupMsg_def split: option.splits)

lemma resolve_loop_not_bodyRuleError:
  "resolve_loop r root path pp i msg result cs = Inl e \<Longrightarrow> \<not> bodyRuleError e"
proof (induction cs arbitrary: i msg result)
  case Nil
  then show ?case by simp
next
  case (Cons c cs)
  show ?case
  proof (cases "descend r path i msg result")
    case (Inl e')
    with Cons.prems have "e = e'" by simp
    moreover from Inl have "\<not> bodyRuleError e'"
      by (auto simp: descend_def Let_def split: if_splits dest: LookupMsg_not_bodyRuleError)
    ultimately show ?thesis by simp
  next
    case (Inr msg')
    show ?thesis
    proof (cases "lookupField msg' c")
      case None
      with Inr Cons.prems show ?thesis by (auto)
    next
      case (Some f)
      with Inr Cons.prems Cons.IH show ?thesis
        by (auto simp: split: if_splits)
    qed
  qed
qed

lemma resolveFieldPath_not_bodyRuleError:
  "resolveFieldPath r msg path pp = Inl e \<Longrightarrow> \<not> bodyRuleError e"
  by (auto simp: resolveFieldPath_def split: if_splits dest: resolve_loop_not_bodyRuleError)

lemma newParam_not_bodyRuleError:
  "newParam D r meth path = Inl e \<Longrightarrow> \<not> bodyRuleError e"
  by (auto simp: newParam_def Let_def split: sum.splits if_splits option.splits
           dest: resolveFieldPath_not_bodyRuleError)

lemma newParams_not_bodyRuleError:
  "newParams D r meth acc fs = Inl e \<Longrightarrow> \<not> bodyRuleError e"
  by (induction fs arbitrary: acc) (auto split: sum.splits dest: newParam_not_bodyRuleError)

lemma newBody_not_bodyRuleError:
  "newBody r meth path = Inl e \<Longrightarrow> \<not> bodyRuleError e"
  by (auto simp: newBody_def Let_def split: sum.splits if_splits
           dest: resolveFieldPath_not_bodyRuleError)

lemma newResponse_not_bodyRuleError:
  "newResponse r meth path = Inl e \<Longrightarrow> \<not> bodyRuleError e"
  by (auto simp: newResponse_def Let_def split: sum.splits if_splits
           dest: resolveFieldPath_not_bodyRuleError)

lemma newBinding_after_select:
  assumes "selectPattern r md opts = Inr sel" "newBinding D r meth md opts idx = Inl e"
  shows "\<not> bodyRuleError e"
proof (cases sel)
  case None
  with assms show ?thesis by (simp add: newBinding_def)
next
  case (Some vp)
  obtain v p where vp: "vp = (v, p)" by (cases vp)
  show ?thesis
  proof (cases "ext_Parse D p")
    case (Inl m)
    with assms Some vp show ?thesis by (auto simp: newBinding_def)
  next
    case (Inr tmpl)
    with assms Some vp show ?thesis
      by (auto simp: newBinding_def split: if_splits sum.splits
            dest: newParams_not_bodyRuleError newBody_not_bodyRuleError newResponse_not_bodyRuleError)
  qed
qed

section \<open>Body rules of GET and DELETE\<close>

text \<open>
  Claim C7. When the switch of \<open>newBinding\<close> selects the GET pattern (the rule carries a
  non-empty GET path), the binding is rejected with the GET-with-body error exactly when
  the body of the rule is a non-empty string, \<open>*\<close> included; with an empty body no
  error of \<open>newBinding\<close> is a body-rule error.
\<close>

theorem get_rule_rejected_iff_body:
  assumes "rule_Pattern opts = Get p" and "p \<noteq> []"
  shows "(newBinding D r meth md opts idx = Inl (ErrGetWithBody (md_Name md))) = (rule_Body opts \<noteq> [])
       \<and> (rule_Body opts = [] \<longrightarrow>
            (\<forall>e. newBinding D r meth md opts idx = Inl e \<longrightarrow> \<not> bodyRuleError e))"
proof (cases "rule_Body opts = []")
  case True
  with assms have sel: "selectPattern r md opts = Inr (Some (''GET'', p))"
    by (simp add: selectPattern_def GetGet_def)
  have none: "\<forall>e. newBinding D r meth md opts idx = Inl e \<longrightarrow> \<not> bodyRuleError e"
    using newBinding_after_select [OF sel] by blast
  then have "newBinding D r meth md opts idx \<noteq> Inl (ErrGetWithBody (md_Name md))"
    by auto
  with True none show ?thesis by simp
next
  case False
  with assms show ?thesis
    by (simp add: newBinding_def selectPattern_def GetGet_def)
qed

theorem get_rule_rejected_iff_body_witness:
  "rule_Pattern (HttpRule (Get ''/v1/items'') ''*'' [] []) = Get ''/v1/items''
   \<and> ''/v1/items'' \<noteq> []
   \<and> newBinding ex_Deps ex_Registry ex_Meth ex_Md (HttpRule (Get ''/v1/items'') ''*'' [] []) 0
       = Inl (ErrGetWithBody ''ListItems'')"
  using get_rule_rejected_iff_body
          [of "HttpRule (Get ''/v1/items'') ''*'' [] []" "''/v1/items''"
              ex_Deps ex_Registry ex_Meth ex_Md 0]
  by (simp add: ex_Md_def)

text \<open>
  Claim C8. When the switch of \<open>newBinding\<close> selects the DELETE pattern and the body of
  the rule is a non-empty string, the binding is rejected with the DELETE-with-body error
  when \<open>allowDeleteBody\<close> is off; when it is on, no error of \<open>newBinding\<close> is a body-rule
  error.
\<close>

theorem delete_rule_with_body:
  assumes "rule_Pattern opts = Delete p" and "p \<noteq> []" and "rule_Body opts \<noteq> []"
  shows "(\<not> reg_allowDeleteBody r \<longrightarrow>
            newBinding D r meth md opts idx = Inl (ErrDeleteWithBody (md_Name md)))
       \<and> (reg_allowDeleteBody r \<longrightarrow>
            (\<forall>e. newBinding D r meth md opts idx = Inl e \<longrightarrow> \<not> bodyRuleError e))"
proof (cases "reg_allowDeleteBody r")
  case True
  with assms have sel: "selectPattern r md opts = Inr (Some (''DELETE'', p))"
    by (simp add: selectPattern_def GetGet_def GetPut_def GetPost_def GetDelete_def)
  have "\<forall>e. newBinding D r meth md opts idx = Inl e \<longrightarrow> \<not> bodyRuleError e"
    using newBinding_after_select [OF sel] by blast
  with True show ?thesis by simp
next
  case False
  with assms show ?thesis
    by (simp add: newBinding_def selectPattern_def GetGet_def GetPut_def GetPost_def GetDelete_def)
qed

theorem delete_rule_with_body_witness:
  "rule_Pattern (HttpRule (Delete ''/v1/items'') ''*'' [] []) = Delete ''/v1/items''
   \<and> ''/v1/items'' \<noteq> []
   \<and> rule_Body (HttpRule (Delete ''/v1/items'') ''*'' [] []) \<noteq> []
   \<and> \<not> reg_allowDeleteBody ex_Registry
   \<and> newBinding ex_Deps ex_Registry ex_Meth ex_Md (HttpRule (Delete ''/v1/items'') ''*'' [] []) 0
       = Inl (ErrDeleteWithBody ''ListItems'')"
  using delete_rule_with_body
          [of "HttpRule (Delete ''/v1/items'') ''*'' [] []" "''/v1/items''"
              ex_Registry ex_Deps ex_Meth ex_Md 0]
  by (simp add: ex_Md_def ex_Registry_def)

section \<open>Field path resolution: properties\<close>

lemma split_on_nonempty: "split_on sep s \<noteq> []"
  by (induction s) (auto simp: Let_def)

lemma split_on_no_sep: "sep \<notin> set a \<Longrightarrow> split_on sep a = [a]"
  by (induction a) (auto simp: Let_def)

lemma split_on_append: "sep \<notin> set a \<Longrightarrow> split_on sep (a @ sep # rest) = a # split_on sep rest"
  by (induction a) (auto simp: Let_def)

lemma split_on_three:
  assumes "sep \<notin> set a" "sep \<notin> set b" "sep \<notin> set c"
  shows "split_on sep (a @ [sep] @ b @ [sep] @ c) = [a, b, c]"
  using assms by (simp add: split_on_append split_on_no_sep)

lemma resolve_loop_shape:
  "resolve_loop r root path pp i msg result cs = Inr chain \<Longrightarrow>
   \<exists>new. chain = result @ new \<and> length new = length cs \<and> map fpc_Name new = cs \<and>
         (pp \<longrightarrow> (\<forall>x\<in>set new. \<not> fld_Proto3Optional (fpc_Target x)))"
proof (induction cs arbitrary: i msg result)
  case Nil
  then show ?case by simp
next
  case (Cons c cs)
  from Cons.prems obtain msg' f where
    f: "lookupField msg' c = Some f" "\<not> (pp \<and> fld_Proto3Optional f)" and
    rec: "resolve_loop r root path pp (Suc i) msg' (result @ [\<lparr>fpc_Name = c, fpc_Target = f\<rparr>]) cs = Inr chain"
    by (auto split: sum.splits option.splits if_splits)
  from Cons.IH [OF rec] obtain new where
    new: "chain = (result @ [\<lparr>fpc_Name = c, fpc_Target = f\<rparr>]) @ new" "length new = length cs"
      "map fpc_Name new = cs"
      "pp \<longrightarrow> (\<forall>x\<in>set new. \<not> fld_Proto3Optional (fpc_Target x))"
    by blast
  let ?new = "\<lparr>fpc_Name = c, fpc_Target = f\<rparr> # new"
  have 1: "chain = result @ ?new" using new by simp
  have 2: "length ?new = length (c # cs)" using new by simp
  have 3: "map fpc_Name ?new = c # cs" using new by simp
  have 4: "pp \<longrightarrow> (\<forall>x\<in>set ?new. \<not> fld_Proto3Optional (fpc_Target x))"
    using new f by auto
  show ?case
    by (rule exI [of _ ?new]) (use 1 2 3 4 in blast)
qed

lemma resolve_loop_strict_of_loose:
  "resolve_loop r root path False i msg result cs = Inr chain \<Longrightarrow>
   \<forall>x\<in>set (drop (length result) chain). \<not> fld_Proto3Optional (fpc_Target x) \<Longrightarrow>
   resolve_loop r root path True i msg result cs = Inr chain"
proof (induction cs arbitrary: i msg result)
  case Nil
  then show ?case by simp
next
  case (Cons c cs)
  from Cons.prems(1) obtain msg' f where
    pre: "descend r path i msg result = Inr msg'" and
    f: "lookupField msg' c = Some f" and
    rec: "resolve_loop r root path False (Suc i) msg' (result @ [\<lparr>fpc_Name = c, fpc_Target = f\<rparr>]) cs = Inr chain"
    by (auto split: sum.splits option.splits if_splits)
  from resolve_loop_shape [OF rec] obtain new where
    new: "chain = (result @ [\<lparr>fpc_Name = c, fpc_Target = f\<rparr>]) @ new" by blast
  with Cons.prems(2) have nf: "\<not> fld_Proto3Optional f" by simp
  have "\<forall>x\<in>set (drop (length (result @ [\<lparr>fpc_Name = c, fpc_Target = f\<rparr>])) chain).
          \<not> fld_Proto3Optional (fpc_Target x)"
    using Cons.prems(2) new by simp
  from Cons.IH [OF rec this] pre f nf show ?case
    by simp
qed

lemma resolve_loop_strict_fails:
  "resolve_loop r root path False i msg result cs = Inr chain \<Longrightarrow>
   \<exists>x\<in>set (drop (length result) chain). fld_Proto3Optional (fpc_Target x) \<Longrightarrow>
   \<exists>n. resolve_loop r root path True i msg result cs = Inl (ErrOptionalField n path)"
proof (induction cs arbitrary: i msg result)
  case Nil
  then show ?case by simp
next
  case (Cons c cs)
  from Cons.prems(1) obtain msg' f where
    pre: "descend r path i msg result = Inr msg'" and
    f: "lookupField msg' c = Some f" and
    rec: "resolve_loop r root path False (Suc i) msg' (result @ [\<lparr>fpc_Name = c, fpc_Target = f\<rparr>]) cs = Inr chain"
    by (auto split: sum.splits option.splits if_splits)
  from resolve_loop_shape [OF rec] obtain new where
    new: "chain = (result @ [\<lparr>fpc_Name = c, fpc_Target = f\<rparr>]) @ new" by blast
  show ?case
  proof (cases "fld_Proto3Optional f")
    case True
    with pre f show ?thesis by simp
  next
    case False
    with Cons.prems(2) new
    have "\<exists>x\<in>set (drop (length (result @ [\<lparr>fpc_Name = c, fpc_Target = f\<rparr>])) chain).
            fld_Proto3Optional (fpc_Target x)"
      by simp
    from Cons.IH [OF rec this] pre f False show ?thesis
      by simp
  qed
qed

lemma resolve_loop_loose_of_strict:
  "resolve_loop r root path True i msg result cs = Inr chain \<Longrightarrow>
   resolve_loop r root path False i msg result cs = Inr chain"
proof (induction cs arbitrary: i msg result)
  case Nil
  then show ?case by simp
next
  case (Cons c cs)
  from Cons.prems(1) obtain msg' f where
    pre: "descend r path i msg result = Inr msg'" and
    f: "lookupField msg' c = Some f" and
    rec: "resolve_loop r root path True (Suc i) msg' (result @ [\<lparr>fpc_Name = c, fpc_Target = f\<rparr>]) cs = Inr chain"
    by (auto split: sum.splits option.splits if_splits)
  from Cons.IH [OF rec] pre f show ?case by simp
qed

lemma resolve_loop_no_field_names:
  "resolve_loop r root path pp i msg result cs = Inl (ErrNoField q n) \<Longrightarrow>
   q = path \<and> n = msg_Name root"
proof (induction cs arbitrary: i msg result)
  case Nil
  then show ?case by simp
next
  case (Cons c cs)
  show ?case
  proof (cases "descend r path i msg result")
    case (Inl e)
    with Cons.prems have "e = ErrNoField q n" by simp
    with Inl show ?thesis
      by (auto simp: descend_def LookupMsg_def Let_def split: if_splits option.splits)
  next
    case (Inr msg')
    with Cons.prems Cons.IH show ?thesis
      by (auto split: option.splits if_splits)
  qed
qed

lemma resolveFieldPath_no_field_names:
  "resolveFieldPath r root path pp = Inl (ErrNoField q n) \<Longrightarrow> q = path \<and> n = msg_Name root"
  by (auto simp: resolveFieldPath_def split: if_splits dest: resolve_loop_no_field_names)

text \<open>
  Claim C5. For a path \<open>a.b.c\<close> of three components resolved against a message \<open>M\<close>:
  the result is the chain of \<open>M\<close>'s field \<open>a\<close>, the field \<open>b\<close> of the message type of
  \<open>a\<close> and the field \<open>c\<close> of the message type of \<open>b\<close>, in this order; and when the
  component looked up at a step names no field of the message searched there, the
  resolution fails with the error that carries the whole path string and the name of \<open>M\<close>.
\<close>

theorem resolveFieldPath_three_components:
  assumes a: "CHR ''.'' \<notin> set a" and b: "CHR ''.'' \<notin> set b" and c: "CHR ''.'' \<notin> set c"
    and p: "p = a @ ''.'' @ b @ ''.'' @ c"
  shows
    "(lookupField M a = None \<longrightarrow>
        resolveFieldPath r M p pp = Inl (ErrNoField p (msg_Name M)))
   \<and> (lookupField M a = Some fa \<and> \<not> (pp \<and> fld_Proto3Optional fa) \<and> isAggregate fa \<and>
      LookupMsg r (msg_FQMN M) (GetTypeName fa) = Inr Ma \<and>
      lookupField Ma b = None \<longrightarrow>
        resolveFieldPath r M p pp = Inl (ErrNoField p (msg_Name M)))
   \<and> (lookupField M a = Some fa \<and> \<not> (pp \<and> fld_Proto3Optional fa) \<and> isAggregate fa \<and>
      LookupMsg r (msg_FQMN M) (GetTypeName fa) = Inr Ma \<and>
      lookupField Ma b = Some fb \<and> \<not> (pp \<and> fld_Proto3Optional fb) \<and> isAggregate fb \<and>
      LookupMsg r (msg_FQMN Ma) (GetTypeName fb) = Inr Mb \<and>
      lookupField Mb c = None \<longrightarrow>
        resolveFieldPath r M p pp = Inl (ErrNoField p (msg_Name M)))
   \<and> (lookupField M a = Some fa \<and> \<not> (pp \<and> fld_Proto3Optional fa) \<and> isAggregate fa \<and>
      LookupMsg r (msg_FQMN M) (GetTypeName fa) = Inr Ma \<and>
      lookupField Ma b = Some fb \<and> \<not> (pp \<and> fld_Proto3Optional fb) \<and> isAggregate fb \<and>
      LookupMsg r (msg_FQMN Ma) (GetTypeName fb) = Inr Mb \<and>
      lookupField Mb c = Some fc \<and> \<not> (pp \<and> fld_Proto3Optional fc) \<longrightarrow>
        resolveFieldPath r M p pp =
          Inr [\<lparr>fpc_Name = a, fpc_Target = fa\<rparr>,
               \<lparr>fpc_Name = b, fpc_Target = fb\<rparr>,
               \<lparr>fpc_Name = c, fpc_Target = fc\<rparr>])"
proof -
  have sp: "split_on (CHR ''.'') p = [a, b, c]"
    using split_on_three [OF a b c] p by simp
  have ne: "p \<noteq> []" using p by simp
  have unfold: "resolveFieldPath r M p pp = resolve_loop r M p pp 0 M [] [a, b, c]"
    using sp ne by (simp add: resolveFieldPath_def)
  show ?thesis
    unfolding unfold
    by (auto simp: descend_def Let_def)
qed

theorem resolveFieldPath_three_components_witness:
  "CHR ''.'' \<notin> set ''a'' \<and> CHR ''.'' \<notin> set ''b'' \<and> CHR ''.'' \<notin> set ''c''
   \<and> ''a.b.c'' = ''a'' @ ''.'' @ ''b'' @ ''.'' @ ''c''
   \<and> lookupField ex_Deep ''a'' = Some (messageField ''a'' ''.shop.Middle'')
   \<and> lookupField ex_Middle ''b'' = Some (messageField ''b'' ''.shop.Inner'')
   \<and> lookupField ex_Inner ''c'' = Some (scalarField ''c'')
   \<and> resolveFieldPath ex_Registry ex_Deep ''a.b.c'' True =
       Inr [\<lparr>fpc_Name = ''a'', fpc_Target = messageField ''a'' ''.shop.Middle''\<rparr>,
            \<lparr>fpc_Name = ''b'', fpc_Target = messageField ''b'' ''.shop.Inner''\<rparr>,
            \<lparr>fpc_Name = ''c'', fpc_Target = scalarField ''c''\<rparr>]"
  using resolveFieldPath_three_components
          [of "''a''" "''b''" "''c''" "''a.b.c''" ex_Deep ex_Registry True
              "messageField ''a'' ''.shop.Middle''" ex_Middle
              "messageField ''b'' ''.shop.Inner''" ex_Inner "scalarField ''c''"]
  by (simp add: lookupField_def ex_Deep_def ex_Middle_def ex_Inner_def messageField_def
        scalarField_def optionalField_def isAggregate_def LookupMsg_def GetTypeName_def
        ex_Registry_def ex_msgs_def)

lemma resolveFieldPath_strict_Inr:
  assumes "resolveFieldPath r msg path True = Inr chain"
  shows "\<forall>x\<in>set chain. \<not> fld_Proto3Optional (fpc_Target x)"
    and "resolveFieldPath r msg path False = Inr chain"
proof -
  show "\<forall>x\<in>set chain. \<not> fld_Proto3Optional (fpc_Target x)"
  proof (cases "path = []")
    case True
    with assms show ?thesis by (simp add: resolveFieldPath_def)
  next
    case False
    with assms have "resolve_loop r msg path True 0 msg [] (split_on (CHR ''.'') path) = Inr chain"
      by (simp add: resolveFieldPath_def)
    from resolve_loop_shape [OF this] show ?thesis by auto
  qed
  show "resolveFieldPath r msg path False = Inr chain"
    using assms by (auto simp: resolveFieldPath_def split: if_splits dest: resolve_loop_loose_of_strict)
qed

lemma resolveFieldPath_strict_of_loose:
  assumes "resolveFieldPath r msg path False = Inr chain"
    and "\<forall>x\<in>set chain. \<not> fld_Proto3Optional (fpc_Target x)"
  shows "resolveFieldPath r msg path True = Inr chain"
proof (cases "path = []")
  case True
  with assms show ?thesis by (simp add: resolveFieldPath_def)
next
  case False
  with assms(1) have l: "resolve_loop r msg path False 0 msg [] (split_on (CHR ''.'') path) = Inr chain"
    by (simp add: resolveFieldPath_def)
  have "resolve_loop r msg path True 0 msg [] (split_on (CHR ''.'') path) = Inr chain"
    by (rule resolve_loop_strict_of_loose [OF l]) (use assms(2) in simp)
  with False show ?thesis by (simp add: resolveFieldPath_def)
qed

lemma resolveFieldPath_strict_fails:
  assumes "resolveFieldPath r msg path False = Inr chain"
    and "\<exists>x\<in>set chain. fld_Proto3Optional (fpc_Target x)"
  shows "\<exists>n. resolveFieldPath r msg path True = Inl (ErrOptionalField n path)"
proof (cases "path = []")
  case True
  with assms show ?thesis by (simp add: resolveFieldPath_def)
next
  case False
  with assms(1) have l: "resolve_loop r msg path False 0 msg [] (split_on (CHR ''.'') path) = Inr chain"
    by (simp add: resolveFieldPath_def)
  have "\<exists>n. resolve_loop r msg path True 0 msg [] (split_on (CHR ''.'') path) = Inl (ErrOptionalField n path)"
    by (rule resolve_loop_strict_fails [OF l]) (use assms(2) in simp)
  with False show ?thesis by (simp add: resolveFieldPath_def)
qed

lemma newParam_Inr_D:
  assumes "newParam D r meth path = Inr p"
  shows "resolveFieldPath r (meth_RequestType meth) path True = Inr (param_FieldPath p)"
    and "param_FieldPath p \<noteq> []"
    and "param_Target p = fpc_Target (last (param_FieldPath p))"
    and "param_Method p = meth"
    and "isAggregate (param_Target p) \<longrightarrow>
           (\<exists>tn. fld_TypeName (param_Target p) = Some tn \<and> ext_IsWellKnownType D tn)"
proof -
  from assms obtain chain where
    ch: "resolveFieldPath r (meth_RequestType meth) path True = Inr chain"
    by (cases "resolveFieldPath r (meth_RequestType meth) path True") (auto simp: newParam_def)
  from assms ch have ne: "chain \<noteq> []"
    by (auto simp: newParam_def Let_def)
  from assms ch ne have p: "p = \<lparr>param_FieldPath = chain, param_Method = meth,
                               param_Target = fpc_Target (chain ! (length chain - 1))\<rparr>"
    by (auto simp: newParam_def Let_def split: if_splits option.splits)
  from ch p show "resolveFieldPath r (meth_RequestType meth) path True = Inr (param_FieldPath p)"
    by simp
  from ne p show "param_FieldPath p \<noteq> []" by simp
  from ne p show "param_Target p = fpc_Target (last (param_FieldPath p))"
    by (simp add: last_conv_nth)
  from p show "param_Method p = meth" by simp
  from assms ch ne p show "isAggregate (param_Target p) \<longrightarrow>
           (\<exists>tn. fld_TypeName (param_Target p) = Some tn \<and> ext_IsWellKnownType D tn)"
    by (auto simp: newParam_def Let_def split: if_splits option.splits)
qed

text \<open>
  Claim C6. A parameter built by \<open>newParam\<close> has a non-empty field path whose last
  field is its target; the target is not optional and, when it is of message or group
  type, its type is a well-known type. For a path that resolves (outside path-parameter
  mode) to a chain, \<open>newParam\<close> fails when the last field is optional, fails when the last
  field is of a message type that is not well-known, and succeeds with that chain when no
  field of the chain is optional and the last field is of a well-known type.
\<close>

theorem newParam_terminal_field:
  "(newParam D r meth path = Inr p \<longrightarrow>
      param_FieldPath p \<noteq> [] \<and>
      param_Target p = fpc_Target (last (param_FieldPath p)) \<and>
      \<not> fld_Proto3Optional (param_Target p) \<and>
      (isAggregate (param_Target p) \<longrightarrow>
         (\<exists>tn. fld_TypeName (param_Target p) = Some tn \<and> ext_IsWellKnownType D tn)))
 \<and> (resolveFieldPath r (meth_RequestType meth) path False = Inr chain \<and> chain \<noteq> [] \<and>
    fld_Proto3Optional (fpc_Target (last chain)) \<longrightarrow>
      (\<exists>n. newParam D r meth path = Inl (ErrOptionalField n path)))
 \<and> (resolveFieldPath r (meth_RequestType meth) path False = Inr chain \<and> chain \<noteq> [] \<and>
    isAggregate (fpc_Target (last chain)) \<and>
    fld_TypeName (fpc_Target (last chain)) = Some tn \<and> \<not> ext_IsWellKnownType D tn \<longrightarrow>
      (\<exists>e. newParam D r meth path = Inl e \<and>
           ((\<forall>x\<in>set chain. \<not> fld_Proto3Optional (fpc_Target x)) \<longrightarrow>
              e = ErrMessagePathParam (svc_Name (meth_Service meth))
                    (md_Name (meth_Desc meth)) path)))
 \<and> (resolveFieldPath r (meth_RequestType meth) path False = Inr chain \<and> chain \<noteq> [] \<and>
    (\<forall>x\<in>set chain. \<not> fld_Proto3Optional (fpc_Target x)) \<and>
    isAggregate (fpc_Target (last chain)) \<and>
    fld_TypeName (fpc_Target (last chain)) = Some tn \<and> ext_IsWellKnownType D tn \<longrightarrow>
      newParam D r meth path =
        Inr \<lparr>param_FieldPath = chain, param_Method = meth,
             param_Target = fpc_Target (last chain)\<rparr>)"
proof (intro conjI impI)
  assume ok: "newParam D r meth path = Inr p"
  note d = newParam_Inr_D [OF ok]
  show "param_FieldPath p \<noteq> []" by (rule d(2))
  show "param_Target p = fpc_Target (last (param_FieldPath p))" by (rule d(3))
  show "\<not> fld_Proto3Optional (param_Target p)"
    using resolveFieldPath_strict_Inr(1) [OF d(1)] d(2) d(3) by simp
  assume "isAggregate (param_Target p)"
  with d(5) show "\<exists>tn. fld_TypeName (param_Target p) = Some tn \<and> ext_IsWellKnownType D tn"
    by simp
next
  assume h: "resolveFieldPath r (meth_RequestType meth) path False = Inr chain \<and> chain \<noteq> [] \<and>
    fld_Proto3Optional (fpc_Target (last chain))"
  then have "\<exists>x\<in>set chain. fld_Proto3Optional (fpc_Target x)"
    using last_in_set by blast
  from resolveFieldPath_strict_fails [OF _ this] h
  obtain n where "resolveFieldPath r (meth_RequestType meth) path True = Inl (ErrOptionalField n path)"
    by blast
  then show "\<exists>n. newParam D r meth path = Inl (ErrOptionalField n path)"
    by (simp add: newParam_def)
next
  assume h: "resolveFieldPath r (meth_RequestType meth) path False = Inr chain \<and> chain \<noteq> [] \<and>
    isAggregate (fpc_Target (last chain)) \<and>
    fld_TypeName (fpc_Target (last chain)) = Some tn \<and> \<not> ext_IsWellKnownType D tn"
  show "\<exists>e. newParam D r meth path = Inl e \<and>
           ((\<forall>x\<in>set chain. \<not> fld_Proto3Optional (fpc_Target x)) \<longrightarrow>
              e = ErrMessagePathParam (svc_Name (meth_Service meth))
                    (md_Name (meth_Desc meth)) path)"
  proof (cases "\<forall>x\<in>set chain. \<not> fld_Proto3Optional (fpc_Target x)")
    case True
    with h have "resolveFieldPath r (meth_RequestType meth) path True = Inr chain"
      using resolveFieldPath_strict_of_loose by blast
    moreover from h have "chain ! (length chain - Suc 0) = last chain"
      by (simp add: last_conv_nth)
    ultimately show ?thesis
      using h True by (simp add: newParam_def Let_def)
  next
    case False
    then have "\<exists>x\<in>set chain. fld_Proto3Optional (fpc_Target x)" by blast
    from resolveFieldPath_strict_fails [OF _ this] h
    obtain n where "resolveFieldPath r (meth_RequestType meth) path True = Inl (ErrOptionalField n path)"
      by blast
    with False show ?thesis by (simp add: newParam_def)
  qed
next
  assume h: "resolveFieldPath r (meth_RequestType meth) path False = Inr chain \<and> chain \<noteq> [] \<and>
    (\<forall>x\<in>set chain. \<not> fld_Proto3Optional (fpc_Target x)) \<and>
    isAggregate (fpc_Target (last chain)) \<and>
    fld_TypeName (fpc_Target (last chain)) = Some tn \<and> ext_IsWellKnownType D tn"
  then have "resolveFieldPath r (meth_RequestType meth) path True = Inr chain"
    using resolveFieldPath_strict_of_loose by blast
  moreover from h have "chain ! (length chain - Suc 0) = last chain"
    by (simp add: last_conv_nth)
  ultimately show "newParam D r meth path =
        Inr \<lparr>param_FieldPath = chain, param_Method = meth,
             param_Target = fpc_Target (last chain)\<rparr>"
    using h by (simp add: newParam_def Let_def)
qed

theorem newParam_terminal_field_witness:
  "newParam ex_Deps ex_Registry ex_DeepMeth ''ts'' =
     Inr \<lparr>param_FieldPath =
            [\<lparr>fpc_Name = ''ts'',
              fpc_Target = messageField ''ts'' ''.google.protobuf.Timestamp''\<rparr>],
          param_Method = ex_DeepMeth,
          param_Target = messageField ''ts'' ''.google.protobuf.Timestamp''\<rparr>
   \<and> (\<exists>n. newParam ex_Deps ex_Registry ex_DeepMeth ''opt'' = Inl (ErrOptionalField n ''opt''))
   \<and> (\<exists>e. newParam ex_Deps ex_Registry ex_DeepMeth ''a'' = Inl e)"
  using newParam_terminal_field
          [of ex_Deps ex_Registry ex_DeepMeth "''ts''"
              "\<lparr>param_FieldPath =
                  [\<lparr>fpc_Name = ''ts'',
                    fpc_Target = messageField ''ts'' ''.google.protobuf.Timestamp''\<rparr>],
                param_Method = ex_DeepMeth,
                param_Target = messageField ''ts'' ''.google.protobuf.Timestamp''\<rparr>"
              "[\<lparr>fpc_Name = ''ts'',
                 fpc_Target = messageField ''ts'' ''.google.protobuf.Timestamp''\<rparr>]"
              "''.google.protobuf.Timestamp''"]
        newParam_terminal_field
          [of ex_Deps ex_Registry ex_DeepMeth "''opt''" _
              "[\<lparr>fpc_Name = ''opt'', fpc_Target = optionalField ''opt''\<rparr>]"]
        newParam_terminal_field
          [of ex_Deps ex_Registry ex_DeepMeth "''a''" _
              "[\<lparr>fpc_Name = ''a'', fpc_Target = messageField ''a'' ''.shop.Middle''\<rparr>]"
              "''.shop.Middle''"]
  by (simp add: resolveFieldPath_def descend_def lookupField_def ex_DeepMeth_def ex_Deep_def
        ex_Deps_def messageField_def scalarField_def optionalField_def isAggregate_def)

section \<open>Rules without a pattern\<close>

lemma newBinding_no_pattern:
  "rule_Pattern opts = PatternUnset \<Longrightarrow> newBinding D r meth md opts idx = Inr None"
  by (simp add: newBinding_def selectPattern_def GetGet_def GetPut_def GetPost_def
        GetDelete_def GetPatch_def GetCustom_def)

text \<open>
  Claim C3. A rule with no pattern yields no binding and no error. As the primary rule it
  leaves the binding list as it was; as an entry of \<open>additional_bindings\<close> it makes
  \<open>applyOpts\<close> append the nil binding that \<open>newBinding\<close> returned, so the list grows by
  a nil entry.
\<close>

theorem applyOpts_rule_without_pattern:
  "applyOpts D r meth md bindings (HttpRule PatternUnset body resp []) = Inr bindings
 \<and> applyAdditional D r meth md bindings [HttpRule PatternUnset body resp []] = Inr (bindings @ [None])
 \<and> applyOpts D r meth md bindings
       (HttpRule PatternUnset body resp [HttpRule PatternUnset body' resp' []]) = Inr (bindings @ [None])"
  by (simp add: applyOpts_def newBinding_no_pattern)

section \<open>Query parameters: properties\<close>

lemma keys_fieldmap0:
  "fst ` set (foldl (\<lambda>m f. AList.update (fld_Name f) True m) fm fs) = fst ` set fm \<union> fld_Name ` set fs"
  by (induction fs arbitrary: fm) (auto simp: dom_update)

lemma distinct_fieldmap0:
  "distinct (map fst fm) \<Longrightarrow> distinct (map fst (foldl (\<lambda>m f. AList.update (fld_Name f) True m) fm fs))"
  by (induction fs arbitrary: fm) (auto simp: distinct_update)

lemma keys_delete: "fst ` set (AList.delete k fm) = fst ` set fm - {k}"
  by (auto simp: AList.delete_eq)

lemma keys_delete_params:
  "fst ` set (foldl (\<lambda>m p. AList.delete (FieldPath_String (param_FieldPath p)) m) fm ps) =
   fst ` set fm - (\<lambda>p. FieldPath_String (param_FieldPath p)) ` set ps"
  by (induction ps arbitrary: fm) (auto simp: keys_delete)

lemma map_of_keys: "(map_of fm k \<noteq> None) = (k \<in> fst ` set fm)"
  by (simp add: map_of_eq_None_iff)

lemma anyRemaining_iff:
  "anyRemaining fm fs = (\<exists>f\<in>set fs. fld_Name f \<in> fst ` set fm)"
  by (induction fs) (auto simp: Let_def map_of_keys simp del: not_None_eq)

lemma collectRemaining_eq:
  "collectRemaining fm list fs = list @ filter (\<lambda>n. n \<in> fst ` set fm) (map fld_Name fs)"
  by (induction fs arbitrary: list) (auto simp: Let_def map_of_keys simp del: not_None_eq)

lemma remaining_keys:
  "fst ` set (foldl (\<lambda>m p. AList.delete (FieldPath_String (param_FieldPath p)) m)
               (case bind_Body b of
                  Some body \<Rightarrow>
                    AList.delete (FieldPath_String (body_FieldPath body))
                      (foldl (\<lambda>m f. AList.update (fld_Name f) True m) [] fs)
                | None \<Rightarrow> foldl (\<lambda>m f. AList.update (fld_Name f) True m) [] fs)
               (bind_PathParams b)) =
   fld_Name ` set fs
     - (case bind_Body b of Some body \<Rightarrow> {FieldPath_String (body_FieldPath body)} | None \<Rightarrow> {})
     - (\<lambda>p. FieldPath_String (param_FieldPath p)) ` set (bind_PathParams b)"
  by (simp add: keys_delete_params keys_delete keys_fieldmap0 split: option.split)

lemma getQueryParams_first:
  assumes "meth_Bindings m = Some b # rest"
  shows "getQueryParams m =
           Inr (if wholeMessageBody b then []
                else filter (\<lambda>n. n \<in> fld_Name ` set (msg_Fields (meth_RequestType (bind_Method b)))
                     - (case bind_Body b of
                          Some body \<Rightarrow> {FieldPath_String (body_FieldPath body)} | None \<Rightarrow> {})
                     - (\<lambda>p. FieldPath_String (param_FieldPath p)) ` set (bind_PathParams b))
                   (map fld_Name (msg_Fields (meth_RequestType (bind_Method b)))))"
proof (cases "wholeMessageBody b")
  case True
  with assms show ?thesis by (simp add: getQueryParams_def wholeMessageBody_def)
next
  case False
  then have nb: "\<not> (case bind_Body b of
                   Some body \<Rightarrow> length (body_FieldPath body) = 0
                 | None \<Rightarrow> False)"
    by (simp add: wholeMessageBody_def)
  show ?thesis
    using assms False nb
    by (simp add: getQueryParams_def Let_def collectRemaining_eq remaining_keys)
qed

lemma hasQueryParams_first:
  assumes "meth_Bindings m = Some b # rest"
  shows "hasQueryParams m =
           Inr (\<not> wholeMessageBody b \<and>
                (\<exists>f\<in>set (msg_Fields (meth_RequestType (bind_Method b))).
                   fld_Name f \<in> fld_Name ` set (msg_Fields (meth_RequestType (bind_Method b)))
                     - (case bind_Body b of
                          Some body \<Rightarrow> {FieldPath_String (body_FieldPath body)} | None \<Rightarrow> {})
                     - (\<lambda>p. FieldPath_String (param_FieldPath p)) ` set (bind_PathParams b)))"
proof (cases "wholeMessageBody b")
  case True
  with assms show ?thesis by (simp add: hasQueryParams_def wholeMessageBody_def)
next
  case False
  then have nb: "\<not> (case bind_Body b of
                   Some body \<Rightarrow> length (body_FieldPath body) = 0
                 | None \<Rightarrow> False)"
    by (simp add: wholeMessageBody_def)
  show ?thesis
    using assms False nb
    by (simp add: hasQueryParams_def Let_def anyRemaining_iff remaining_keys)
qed

lemma HasQueryParam_Some:
  "HasQueryParam (Some b) =
     Inr (\<not> wholeMessageBody b \<and>
          fld_Name ` set (msg_Fields (meth_RequestType (bind_Method b)))
            - (case bind_Body b of
                 Some body \<Rightarrow> {FieldPath_String (body_FieldPath body)} | None \<Rightarrow> {})
            - (\<lambda>p. FieldPath_String (param_FieldPath p)) ` set (bind_PathParams b) \<noteq> {})"
proof (cases "wholeMessageBody b")
  case True
  then show ?thesis by (simp add: HasQueryParam_def wholeMessageBody_def)
next
  case False
  then have nb: "\<not> (case bind_Body b of
                   Some body \<Rightarrow> length (body_FieldPath body) = 0
                 | None \<Rightarrow> False)"
    by (simp add: wholeMessageBody_def)
  define fm where
    "fm = foldl (\<lambda>m p. AList.delete (FieldPath_String (param_FieldPath p)) m)
               (case bind_Body b of
                  Some body \<Rightarrow>
                    AList.delete (FieldPath_String (body_FieldPath body))
                      (foldl (\<lambda>m f. AList.update (fld_Name f) True m) []
                         (msg_Fields (meth_RequestType (bind_Method b))))
                | None \<Rightarrow> foldl (\<lambda>m f. AList.update (fld_Name f) True m) []
                            (msg_Fields (meth_RequestType (bind_Method b))))
               (bind_PathParams b)"
  have run: "HasQueryParam (Some b) = Inr (length fm > 0)"
    using nb unfolding fm_def by (simp add: HasQueryParam_def Let_def)
  have keys: "fst ` set fm =
      fld_Name ` set (msg_Fields (meth_RequestType (bind_Method b)))
        - (case bind_Body b of
             Some body \<Rightarrow> {FieldPath_String (body_FieldPath body)} | None \<Rightarrow> {})
        - (\<lambda>p. FieldPath_String (param_FieldPath p)) ` set (bind_PathParams b)"
    unfolding fm_def by (rule remaining_keys)
  have "(length fm > 0) = (fst ` set fm \<noteq> {})" by simp
  with run keys False show ?thesis by simp
qed

text \<open>
  Claim C2 as stated fails for a binding whose body is the whole message: the request
  fields are \<open>id\<close>, \<open>name\<close>, \<open>filter\<close>, the body path is empty and there is no path
  parameter, so the claimed list is all three names, and \<open>getQueryParams\<close> returns the
  empty list.
\<close>

theorem getQueryParams_whole_body_counterexample:
  "meth_Bindings ex_PostMethod ! 0 = Some ex_PostBinding
   \<and> getQueryParams ex_PostMethod = Inr []
   \<and> specQueryParams ex_PostBinding = [''id'', ''name'', ''filter'']
   \<and> getQueryParams ex_PostMethod \<noteq> Inr (specQueryParams ex_PostBinding)"
  by (simp add: getQueryParams_def specQueryParams_def ex_PostMethod_def ex_PostBinding_def
        ex_Meth_def ex_Request_def scalarField_def MethodCore.defs Method.defs)

text \<open>
  Claim C2, amended. For a method whose first binding \<open>b\<close> exists, \<open>getQueryParams\<close>
  returns the empty list when the body of \<open>b\<close> is the whole message, and otherwise the
  names of the direct fields of the request message, in declaration order, without the
  field named by the body field path and without the field path of any path parameter.
\<close>

theorem getQueryParams_spec:
  assumes "meth_Bindings m = Some b # rest"
  shows "getQueryParams m = Inr (if wholeMessageBody b then [] else specQueryParams b)"
proof (cases "wholeMessageBody b")
  case True
  with getQueryParams_first [OF assms] show ?thesis by simp
next
  case False
  have "filter (\<lambda>n. n \<in> fld_Name ` set (msg_Fields (meth_RequestType (bind_Method b)))
                     - (case bind_Body b of
                          Some body \<Rightarrow> {FieldPath_String (body_FieldPath body)} | None \<Rightarrow> {})
                     - (\<lambda>p. FieldPath_String (param_FieldPath p)) ` set (bind_PathParams b))
               (map fld_Name (msg_Fields (meth_RequestType (bind_Method b))))
        = specQueryParams b"
    unfolding specQueryParams_def
    using False
    by (intro filter_cong refl) (auto simp: wholeMessageBody_def split: option.splits)
  with getQueryParams_first [OF assms] False show ?thesis by simp
qed

theorem getQueryParams_spec_witness:
  "meth_Bindings ex_GetMethod = Some ex_GetBinding # []
   \<and> \<not> wholeMessageBody ex_GetBinding
   \<and> map fld_Name (msg_Fields (meth_RequestType (bind_Method ex_GetBinding))) = [''id'', ''name'', ''filter'']
   \<and> getQueryParams ex_GetMethod = Inr [''name'', ''filter'']"
  using getQueryParams_spec [of ex_GetMethod ex_GetBinding "[]"]
  by (simp add: specQueryParams_def wholeMessageBody_def FieldPath_String_def
        ex_GetMethod_def ex_GetBinding_def
        ex_Meth_def ex_Request_def scalarField_def MethodCore.defs Method.defs)

text \<open>
  Claim C10. For a method with at least one binding, \<open>HasQueryParam\<close> of the first
  binding returns true exactly when \<open>hasQueryParams\<close> of the method returns true, which
  is exactly when \<open>getQueryParams\<close> of the method returns a non-empty list; when the
  first binding is not nil, all three return.
\<close>

theorem query_param_computations_agree:
  assumes "meth_Bindings m \<noteq> []"
  shows "(HasQueryParam (meth_Bindings m ! 0) = Inr True) = (hasQueryParams m = Inr True)
       \<and> (hasQueryParams m = Inr True) = (\<exists>l. getQueryParams m = Inr l \<and> l \<noteq> [])
       \<and> (\<forall>b. meth_Bindings m ! 0 = Some b \<longrightarrow>
            (\<exists>x l. HasQueryParam (Some b) = Inr x \<and> hasQueryParams m = Inr x \<and>
                   getQueryParams m = Inr l \<and> x = (l \<noteq> [])))"
proof -
  from assms obtain ob rest where bs: "meth_Bindings m = ob # rest"
    by (cases "meth_Bindings m") auto
  show ?thesis
  proof (cases ob)
    case None
    with bs show ?thesis
      by (simp add: HasQueryParam_def hasQueryParams_def getQueryParams_def)
  next
    case (Some b)
    with bs have first: "meth_Bindings m = Some b # rest" by simp
    let ?K = "fld_Name ` set (msg_Fields (meth_RequestType (bind_Method b)))
                - (case bind_Body b of
                     Some body \<Rightarrow> {FieldPath_String (body_FieldPath body)} | None \<Rightarrow> {})
                - (\<lambda>p. FieldPath_String (param_FieldPath p)) ` set (bind_PathParams b)"
    let ?fs = "msg_Fields (meth_RequestType (bind_Method b))"
    let ?l = "if wholeMessageBody b then [] else filter (\<lambda>n. n \<in> ?K) (map fld_Name ?fs)"
    have g: "getQueryParams m = Inr ?l" by (rule getQueryParams_first [OF first])
    have e1: "(?K \<noteq> {}) = (\<exists>f\<in>set ?fs. fld_Name f \<in> ?K)" by auto
    have e2: "(\<exists>f\<in>set ?fs. fld_Name f \<in> ?K) = (filter (\<lambda>n. n \<in> ?K) (map fld_Name ?fs) \<noteq> [])"
      by (auto simp: filter_empty_conv)
    have h: "hasQueryParams m = Inr (?l \<noteq> [])"
      using hasQueryParams_first [OF first] e2 by simp
    have H: "HasQueryParam (Some b) = Inr (?l \<noteq> [])"
      using HasQueryParam_Some [of b] e1 e2 by simp
    from g h H bs Some show ?thesis by simp
  qed
qed

theorem query_param_computations_agree_witness:
  "meth_Bindings ex_GetMethod \<noteq> []
   \<and> HasQueryParam (meth_Bindings ex_GetMethod ! 0) = Inr True
   \<and> hasQueryParams ex_GetMethod = Inr True
   \<and> getQueryParams ex_GetMethod = Inr [''name'', ''filter'']"
  using query_param_computations_agree [of ex_GetMethod]
  by (simp add: HasQueryParam_def hasQueryParams_def getQueryParams_def FieldPath_String_def
        ex_GetMethod_def ex_GetBinding_def Let_def ex_bool_eq
        ex_Meth_def ex_Request_def scalarField_def MethodCore.defs Method.defs)

section \<open>Role extraction: properties\<close>

lemma Nil_in_seqLang: "([] \<in> seqLang A B) = ([] \<in> A \<and> [] \<in> B)"
  by (auto simp: seqLang_def)

lemma nullable_iff: "nullable r = ([] \<in> lang r)"
  by (induction r) (auto simp: Nil_in_seqLang intro: starLang_Nil)

lemma tails_seqLang:
  "tails c (seqLang A B) = seqLang (tails c A) B \<union> (if [] \<in> A then tails c B else {})"
proof (intro set_eqI iffI)
  fix w assume "w \<in> tails c (seqLang A B)"
  then obtain xs ys where xy: "c # w = xs @ ys" "xs \<in> A" "ys \<in> B"
    by (auto simp: tails_def seqLang_def)
  show "w \<in> seqLang (tails c A) B \<union> (if [] \<in> A then tails c B else {})"
  proof (cases xs)
    case Nil
    with xy show ?thesis by (auto simp: tails_def)
  next
    case (Cons x xs')
    with xy have "x = c" "w = xs' @ ys" "c # xs' \<in> A" by auto
    with xy show ?thesis by (auto simp: tails_def seqLang_def)
  qed
next
  fix w assume "w \<in> seqLang (tails c A) B \<union> (if [] \<in> A then tails c B else {})"
  then consider (l) "w \<in> seqLang (tails c A) B" | (r) "[] \<in> A" "w \<in> tails c B"
    by (auto split: if_splits)
  then show "w \<in> tails c (seqLang A B)"
  proof cases
    case l
    then obtain xs ys where "w = xs @ ys" "c # xs \<in> A" "ys \<in> B"
      by (auto simp: tails_def seqLang_def)
    then have "c # w = (c # xs) @ ys \<and> c # xs \<in> A \<and> ys \<in> B" by simp
    then show ?thesis unfolding tails_def seqLang_def by blast
  next
    case r
    then have "c # w = [] @ (c # w) \<and> [] \<in> A \<and> c # w \<in> B" by (simp add: tails_def)
    then show ?thesis unfolding tails_def seqLang_def by blast
  qed
qed

lemma starLang_tail:
  "x \<in> starLang A \<Longrightarrow> x = c # w \<Longrightarrow> w \<in> seqLang (tails c A) (starLang A)"
proof (induction arbitrary: w rule: starLang.induct)
  case starLang_Nil
  then show ?case by simp
next
  case (starLang_step a v)
  show ?case
  proof (cases a)
    case Nil
    with starLang_step show ?thesis by simp
  next
    case (Cons y a')
    with starLang_step.prems have "y = c" "w = a' @ v" by auto
    with Cons starLang_step.hyps show ?thesis
      by (auto simp: seqLang_def tails_def)
  qed
qed

lemma tails_starLang: "tails c (starLang A) = seqLang (tails c A) (starLang A)"
proof (intro set_eqI iffI)
  fix w assume "w \<in> tails c (starLang A)"
  then show "w \<in> seqLang (tails c A) (starLang A)"
    using starLang_tail by (simp add: tails_def)
next
  fix w assume "w \<in> seqLang (tails c A) (starLang A)"
  then obtain xs ys where "w = xs @ ys" "c # xs \<in> A" "ys \<in> starLang A"
    by (auto simp: seqLang_def tails_def)
  then have "(c # xs) @ ys \<in> starLang A" "c # w = (c # xs) @ ys"
    using starLang_step [of "c # xs" A ys] by simp_all
  then show "w \<in> tails c (starLang A)" by (simp add: tails_def)
qed

lemma seqLang_Union: "seqLang (\<Union>x\<in>X. f x) B = (\<Union>x\<in>X. seqLang (f x) B)"
  by (auto simp: seqLang_def)

lemma lang_deriv: "(\<Union>r'\<in>set (deriv c r). lang r') = tails c (lang r)"
proof (induction r)
  case Null
  show ?case by (simp add: tails_def)
next
  case Eps
  show ?case by (simp add: tails_def)
next
  case (Lit d)
  show ?case by (auto simp: tails_def)
next
  case (Class rs)
  show ?case by (auto simp: tails_def)
next
  case (Cat r s)
  have "(\<Union>r'\<in>set (deriv c (Cat r s)). lang r') =
          seqLang (\<Union>r'\<in>set (deriv c r). lang r') (lang s)
          \<union> (if nullable r then (\<Union>r'\<in>set (deriv c s). lang r') else {})"
    by (simp add: seqLang_Union)
  also have "\<dots> = seqLang (tails c (lang r)) (lang s)
                  \<union> (if [] \<in> lang r then tails c (lang s) else {})"
    by (simp add: Cat.IH nullable_iff)
  finally show ?case by (simp add: tails_seqLang)
next
  case (Star r)
  have "(\<Union>r'\<in>set (deriv c (Star r)). lang r') =
          seqLang (\<Union>r'\<in>set (deriv c r). lang r') (starLang (lang r))"
    by (simp add: seqLang_Union)
  then show ?case by (simp add: Star.IH tails_starLang)
next
  case (Plus r)
  have "(\<Union>r'\<in>set (deriv c (Plus r)). lang r') =
          seqLang (\<Union>r'\<in>set (deriv c r). lang r') (starLang (lang r))"
    by (simp add: seqLang_Union)
  also have "\<dots> = seqLang (tails c (lang r)) (starLang (lang r))"
    by (simp add: Plus.IH)
  also have "\<dots> = tails c (seqLang (lang r) (starLang (lang r)))"
    by (auto simp: tails_seqLang tails_starLang)
  finally show ?case by simp
qed

lemma matchAny_iff: "matchAny rs s = (s \<in> (\<Union>r\<in>set rs. lang r))"
proof (induction s arbitrary: rs)
  case Nil
  show ?case by (auto simp: list_ex_iff nullable_iff)
next
  case (Cons c cs)
  have "(\<Union>r\<in>set (remdups (concat (map (deriv c) rs))). lang r) =
        (\<Union>r\<in>set rs. \<Union>r'\<in>set (deriv c r). lang r')"
    by auto
  also have "\<dots> = (\<Union>r\<in>set rs. tails c (lang r))"
    by (simp add: lang_deriv)
  finally show ?case
    by (simp add: Cons.IH tails_def)
qed

text \<open>The matcher decides membership in the language of the expression.\<close>

lemma fullMatch_iff_lang: "fullMatch r s = (s \<in> lang r)"
  by (simp add: fullMatch_def matchAny_iff)

lemma validateKebabCase_eq:
  "validateKebabCase field v = (if kebabOrEmpty v then None else Some (ErrNotKebabCase field v))"
  by (simp add: validateKebabCase_def kebabOrEmpty_def)

lemma validateScopes_None:
  "(validateScopes n k scopes = None) = (\<forall>s\<in>set scopes. kebabOrEmpty s)"
  by (induction scopes arbitrary: k) (auto simp: validateKebabCase_eq)

lemma validateScopes_first:
  "i < length scopes \<Longrightarrow> \<not> kebabOrEmpty (scopes ! i) \<Longrightarrow> \<forall>j<i. kebabOrEmpty (scopes ! j) \<Longrightarrow>
   validateScopes n k scopes =
     Some (ErrInvalidRole n (ErrNotKebabCase (''scope['' @ string_of_nat (k + i) @ '']'') (scopes ! i)))"
proof (induction scopes arbitrary: k i)
  case Nil
  then show ?case by simp
next
  case (Cons s scopes)
  show ?case
  proof (cases i)
    case 0
    with Cons.prems show ?thesis by (simp add: validateKebabCase_eq)
  next
    case (Suc i')
    with Cons.prems have s: "kebabOrEmpty s" by auto
    from Suc Cons.prems have "i' < length scopes" "\<not> kebabOrEmpty (scopes ! i')"
      "\<forall>j<i'. kebabOrEmpty (scopes ! j)" by auto
    from Cons.IH [OF this, of "Suc k"] s Suc show ?thesis
      by (simp add: validateKebabCase_eq)
  qed
qed

text \<open>
  Claim C9. A method without options or without a role annotation yields no role and no
  error. For a method with a role annotation, \<open>extractRoleOptions\<close> succeeds exactly
  when the resource, the verb and every scope are empty or match the kebab-case pattern,
  and then returns the role; otherwise it fails at the first violating value, in the
  order resource, verb, scopes by index, with the error that carries the method name, the
  field (\<open>resource\<close>, \<open>verb\<close> or \<open>scope[i]\<close>) and the value.
\<close>

theorem extractRoleOptions_kebab:
  "((md_Options meth = None \<or> (\<exists>options. md_Options meth = Some options \<and> mo_Role options = None)) \<longrightarrow>
      extractRoleOptions meth = Inr None)
 \<and> (md_Options meth = Some options \<and> mo_Role options = Some role \<longrightarrow>
      ((\<exists>ro. extractRoleOptions meth = Inr ro) =
         (kebabOrEmpty (ro_Resource role) \<and> kebabOrEmpty (ro_Verb role) \<and>
          (\<forall>s\<in>set (ro_Scope role). kebabOrEmpty s)))
    \<and> (kebabOrEmpty (ro_Resource role) \<and> kebabOrEmpty (ro_Verb role) \<and>
          (\<forall>s\<in>set (ro_Scope role). kebabOrEmpty s) \<longrightarrow>
        extractRoleOptions meth = Inr (Some role))
    \<and> (\<not> kebabOrEmpty (ro_Resource role) \<longrightarrow>
        extractRoleOptions meth =
          Inl (ErrInvalidRole (md_Name meth) (ErrNotKebabCase ''resource'' (ro_Resource role))))
    \<and> (kebabOrEmpty (ro_Resource role) \<and> \<not> kebabOrEmpty (ro_Verb role) \<longrightarrow>
        extractRoleOptions meth =
          Inl (ErrInvalidRole (md_Name meth) (ErrNotKebabCase ''verb'' (ro_Verb role))))
    \<and> (kebabOrEmpty (ro_Resource role) \<and> kebabOrEmpty (ro_Verb role) \<and>
       i < length (ro_Scope role) \<and> \<not> kebabOrEmpty (ro_Scope role ! i) \<and>
       (\<forall>j<i. kebabOrEmpty (ro_Scope role ! j)) \<longrightarrow>
        extractRoleOptions meth =
          Inl (ErrInvalidRole (md_Name meth)
                 (ErrNotKebabCase (''scope['' @ string_of_nat i @ '']'') (ro_Scope role ! i)))))"
proof (intro conjI impI)
  assume "md_Options meth = None \<or> (\<exists>options. md_Options meth = Some options \<and> mo_Role options = None)"
  then show "extractRoleOptions meth = Inr None"
    by (auto simp: extractRoleOptions_def)
next
  assume h: "md_Options meth = Some options \<and> mo_Role options = Some role"
  show "(\<exists>ro. extractRoleOptions meth = Inr ro) =
         (kebabOrEmpty (ro_Resource role) \<and> kebabOrEmpty (ro_Verb role) \<and>
          (\<forall>s\<in>set (ro_Scope role). kebabOrEmpty s))"
    using h validateScopes_None [of "md_Name meth" 0 "ro_Scope role"]
    by (auto simp: extractRoleOptions_def validateKebabCase_eq split: option.splits)
next
  assume h: "md_Options meth = Some options \<and> mo_Role options = Some role"
    and ok: "kebabOrEmpty (ro_Resource role) \<and> kebabOrEmpty (ro_Verb role) \<and>
          (\<forall>s\<in>set (ro_Scope role). kebabOrEmpty s)"
  then have "validateScopes (md_Name meth) 0 (ro_Scope role) = None"
    by (simp add: validateScopes_None)
  with h ok show "extractRoleOptions meth = Inr (Some role)"
    by (simp add: extractRoleOptions_def validateKebabCase_eq)
next
  assume "md_Options meth = Some options \<and> mo_Role options = Some role"
    and "\<not> kebabOrEmpty (ro_Resource role)"
  then show "extractRoleOptions meth =
          Inl (ErrInvalidRole (md_Name meth) (ErrNotKebabCase ''resource'' (ro_Resource role)))"
    by (simp add: extractRoleOptions_def validateKebabCase_eq)
next
  assume "md_Options meth = Some options \<and> mo_Role options = Some role"
    and "kebabOrEmpty (ro_Resource role) \<and> \<not> kebabOrEmpty (ro_Verb role)"
  then show "extractRoleOptions meth =
          Inl (ErrInvalidRole (md_Name meth) (ErrNotKebabCase ''verb'' (ro_Verb role)))"
    by (simp add: extractRoleOptions_def validateKebabCase_eq)
next
  assume h: "md_Options meth = Some options \<and> mo_Role options = Some role"
    and v: "kebabOrEmpty (ro_Resource role) \<and> kebabOrEmpty (ro_Verb role) \<and>
       i < length (ro_Scope role) \<and> \<not> kebabOrEmpty (ro_Scope role ! i) \<and>
       (\<forall>j<i. kebabOrEmpty (ro_Scope role ! j))"
  then have "validateScopes (md_Name meth) 0 (ro_Scope role) =
     Some (ErrInvalidRole (md_Name meth)
        (ErrNotKebabCase (''scope['' @ string_of_nat (0 + i) @ '']'') (ro_Scope role ! i)))"
    by (intro validateScopes_first) auto
  with h v show "extractRoleOptions meth =
          Inl (ErrInvalidRole (md_Name meth)
                 (ErrNotKebabCase (''scope['' @ string_of_nat i @ '']'') (ro_Scope role ! i)))"
    by (simp add: extractRoleOptions_def validateKebabCase_eq)
qed

lemma kebab_examples:
  "kebabOrEmpty ''order-item''" "kebabOrEmpty ''list''" "kebabOrEmpty ''read''"
  "\<not> kebabOrEmpty ''Bad_Scope''" "kebabOrEmpty []"
  by (simp_all add: kebabOrEmpty_def MatchString_def fullMatch_def kebabCaseRegex_def)

theorem extractRoleOptions_kebab_witness:
  "md_Options (ex_RoleMd \<lparr>ro_Resource = ''order-item'', ro_Verb = ''list'',
                           ro_Scope = [''read'', ''Bad_Scope'']\<rparr>)
     = Some \<lparr>mo_Http = None,
             mo_Role = Some \<lparr>ro_Resource = ''order-item'', ro_Verb = ''list'',
                              ro_Scope = [''read'', ''Bad_Scope'']\<rparr>\<rparr>
   \<and> kebabOrEmpty ''order-item'' \<and> kebabOrEmpty ''list'' \<and> kebabOrEmpty ''read''
   \<and> \<not> kebabOrEmpty ''Bad_Scope''
   \<and> extractRoleOptions (ex_RoleMd \<lparr>ro_Resource = ''order-item'', ro_Verb = ''list'',
                                     ro_Scope = [''read'', ''Bad_Scope'']\<rparr>)
       = Inl (ErrInvalidRole ''ListItems'' (ErrNotKebabCase ''scope[1]'' ''Bad_Scope''))"
  using extractRoleOptions_kebab
          [of "ex_RoleMd \<lparr>ro_Resource = ''order-item'', ro_Verb = ''list'',
                          ro_Scope = [''read'', ''Bad_Scope'']\<rparr>"
              "\<lparr>mo_Http = None,
                mo_Role = Some \<lparr>ro_Resource = ''order-item'', ro_Verb = ''list'',
                                 ro_Scope = [''read'', ''Bad_Scope'']\<rparr>\<rparr>"
              "\<lparr>ro_Resource = ''order-item'', ro_Verb = ''list'',
                ro_Scope = [''read'', ''Bad_Scope'']\<rparr>" 1]
        kebab_examples
  by (simp add: ex_RoleMd_def string_of_nat.simps digit_char_def less_Suc_eq)

section \<open>Default binding of an unbound method\<close>

lemma newBinding_default_rule:
  assumes parse: "ext_Parse D path = Inr tmpl" and nofields: "tmpl_Fields tmpl = []"
    and path: "path \<noteq> []"
  shows "newBinding D r meth md (HttpRule (Post path) ''*'' [] []) idx =
           Inr (Some \<lparr>bind_Method = meth, bind_Index = idx, bind_PathTmpl = tmpl,
                      bind_HTTPMethod = ''POST'', bind_PathParams = [],
                      bind_Body = Some \<lparr>body_FieldPath = []\<rparr>,
                      bind_ResponseBody = None\<rparr>)"
  using assms
  by (simp add: newBinding_def selectPattern_def GetGet_def GetPut_def GetPost_def
        newBody_def newResponse_def)

lemma gatherOpts_default:
  assumes "LookupExternalHTTPRules r (ext_FQMN D svc md) = []"
    and "reg_generateUnboundMethods r"
  shows "gatherOpts D r svc md None =
           Inr [HttpRule (Post (''/'' @ TrimPrefix (ext_FQSN D svc) ''.'' @ ''/'' @ md_Name md))
                  ''*'' [] []]"
  using assms by (simp add: gatherOpts_def defaultAPIOptions_def Let_def)

text \<open>
  Claim C1. Take a method with no external rule and no inline rule, with default
  generation enabled, whose role extraction succeeds, whose request and response types
  resolve, and whose default path \<open>/<service name>/<method name>\<close> (the FQSN without its
  leading dot) the template compiler accepts without captured fields. Then the step of
  \<open>loadServices\<close> for this method registers a method with exactly one binding: verb POST,
  the compiled template of that path, body the whole request message (an empty body
  field path), no path parameters, no response body, index 0.
\<close>

theorem default_binding_for_unbound_method:
  assumes ext: "LookupExternalHTTPRules r (ext_FQMN D svc md) = []"
    and inline: "extractAPIOptions md = Inr None"
    and gen: "reg_generateUnboundMethods r"
    and role: "extractRoleOptions md = Inr role"
    and req: "LookupMsg r (GetPackage svc) (md_InputType md) = Inr requestType"
    and resp: "LookupMsg r (GetPackage svc) (md_OutputType md) = Inr responseType"
    and parse: "ext_Parse D (''/'' @ TrimPrefix (ext_FQSN D svc) ''.'' @ ''/'' @ md_Name md) = Inr tmpl"
    and nofields: "tmpl_Fields tmpl = []"
  shows "\<exists>meth b.
           loadMethods D r svc methods (md # mds) =
             loadMethods D (r\<lparr>reg_meths := (reg_meths r)(ext_FQMN D svc md \<mapsto> meth)\<rparr>) svc
               (methods @ [meth]) mds
         \<and> meth_Bindings meth = [Some b]
         \<and> bind_HTTPMethod b = ''POST''
         \<and> bind_PathTmpl b = tmpl
         \<and> bind_Body b = Some \<lparr>body_FieldPath = []\<rparr>
         \<and> bind_PathParams b = [] \<and> bind_ResponseBody b = None \<and> bind_Index b = 0"
proof -
  let ?path = "''/'' @ TrimPrefix (ext_FQSN D svc) ''.'' @ ''/'' @ md_Name md"
  let ?core = "\<lparr>meth_Service = svc, meth_Desc = md,
                 meth_RequestType = requestType, meth_ResponseType = responseType,
                 meth_Role =
                   (case role of
                      None \<Rightarrow> None
                    | Some ro \<Rightarrow>
                        Some \<lparr>role_Resource = ro_Resource ro,
                              role_Scopes = ro_Scope ro,
                              role_Verb = ro_Verb ro\<rparr>)\<rparr>"
  let ?b = "\<lparr>bind_Method = ?core, bind_Index = 0, bind_PathTmpl = tmpl,
              bind_HTTPMethod = ''POST'', bind_PathParams = [],
              bind_Body = Some \<lparr>body_FieldPath = []\<rparr>,
              bind_ResponseBody = None\<rparr>"
  let ?meth = "MethodCore.extend ?core (Method.fields [Some ?b])"
  have g: "gatherOpts D r svc md None = Inr [HttpRule (Post ?path) ''*'' [] []]"
    by (rule gatherOpts_default [OF ext gen])
  have nb: "newBinding D r ?core md (HttpRule (Post ?path) ''*'' [] []) 0 = Inr (Some ?b)"
    by (rule newBinding_default_rule [OF parse nofields]) simp
  have ao: "applyOptsList D r ?core md [] [HttpRule (Post ?path) ''*'' [] []] = Inr [Some ?b]"
    using nb by (simp add: applyOpts_def)
  have nm: "newMethod D r svc md [HttpRule (Post ?path) ''*'' [] []] role = Inr ?meth"
    using req resp ao by (simp add: newMethod_def Let_def)
  have step: "loadMethods D r svc methods (md # mds) =
             loadMethods D (r\<lparr>reg_meths := (reg_meths r)(ext_FQMN D svc md \<mapsto> ?meth)\<rparr>) svc
               (methods @ [?meth]) mds"
    using inline role g nm by simp
  have bs: "meth_Bindings ?meth = [Some ?b]"
    by (simp add: MethodCore.defs Method.defs)
  show ?thesis
    by (rule exI [of _ ?meth], rule exI [of _ ?b]) (use step bs in simp)
qed

theorem default_binding_for_unbound_method_witness:
  "LookupExternalHTTPRules ex_Registry (ext_FQMN ex_Deps ex_Service ex_Md) = []
   \<and> extractAPIOptions ex_Md = Inr None
   \<and> reg_generateUnboundMethods ex_Registry
   \<and> extractRoleOptions ex_Md = Inr None
   \<and> LookupMsg ex_Registry (GetPackage ex_Service) (md_InputType ex_Md) = Inr ex_Request
   \<and> LookupMsg ex_Registry (GetPackage ex_Service) (md_OutputType ex_Md) = Inr ex_Response
   \<and> ''/'' @ TrimPrefix (ext_FQSN ex_Deps ex_Service) ''.'' @ ''/'' @ md_Name ex_Md
        = ''/shop.Items/ListItems''
   \<and> (\<exists>meth b r'.
         loadMethods ex_Deps ex_Registry ex_Service [] [ex_Md] = Inr ([meth], r')
       \<and> meth_Bindings meth = [Some b]
       \<and> bind_HTTPMethod b = ''POST''
       \<and> tmpl_Template (bind_PathTmpl b) = ''/shop.Items/ListItems''
       \<and> bind_Body b = Some \<lparr>body_FieldPath = []\<rparr>)"
proof -
  let ?T = "\<lparr>tmpl_Version = 1, tmpl_OpCodes = [], tmpl_Pool = [], tmpl_Verb = [],
             tmpl_Fields = [], tmpl_Template = ''/shop.Items/ListItems''\<rparr>"
  have h1: "LookupExternalHTTPRules ex_Registry (ext_FQMN ex_Deps ex_Service ex_Md) = []"
    by (simp add: LookupExternalHTTPRules_def ex_Registry_def)
  have h2: "extractAPIOptions ex_Md = Inr None"
    by (simp add: extractAPIOptions_def ex_Md_def)
  have h3: "reg_generateUnboundMethods ex_Registry"
    by (simp add: ex_Registry_def)
  have h4: "extractRoleOptions ex_Md = Inr None"
    by (simp add: extractRoleOptions_def ex_Md_def)
  have h5: "LookupMsg ex_Registry (GetPackage ex_Service) (md_InputType ex_Md) = Inr ex_Request"
    by (simp add: LookupMsg_def ex_Registry_def ex_msgs_def ex_Md_def)
  have h6: "LookupMsg ex_Registry (GetPackage ex_Service) (md_OutputType ex_Md) = Inr ex_Response"
    by (simp add: LookupMsg_def ex_Registry_def ex_msgs_def ex_Md_def)
  have p: "''/'' @ TrimPrefix (ext_FQSN ex_Deps ex_Service) ''.'' @ ''/'' @ md_Name ex_Md
        = ''/shop.Items/ListItems''"
    by (simp add: TrimPrefix_def ex_Deps_def ex_FQSN_def GetPackage_def ex_Service_def ex_Md_def)
  have h7: "ext_Parse ex_Deps (''/'' @ TrimPrefix (ext_FQSN ex_Deps ex_Service) ''.'' @ ''/'' @ md_Name ex_Md)
              = Inr ?T"
    unfolding p by (simp add: ex_Deps_def ex_Parse_def)
  have h8: "tmpl_Fields ?T = []" by simp
  from default_binding_for_unbound_method [OF h1 h2 h3 h4 h5 h6 h7 h8, of "[]" "[]"]
  obtain meth b where
    run: "loadMethods ex_Deps ex_Registry ex_Service [] [ex_Md] =
            Inr ([meth], ex_Registry\<lparr>reg_meths :=
                   (reg_meths ex_Registry)(ext_FQMN ex_Deps ex_Service ex_Md \<mapsto> meth)\<rparr>)"
    and b: "meth_Bindings meth = [Some b]" "bind_HTTPMethod b = ''POST''"
      "bind_PathTmpl b = ?T" "bind_Body b = Some \<lparr>body_FieldPath = []\<rparr>"
    by auto
  have "\<exists>meth b r'.
         loadMethods ex_Deps ex_Registry ex_Service [] [ex_Md] = Inr ([meth], r')
       \<and> meth_Bindings meth = [Some b]
       \<and> bind_HTTPMethod b = ''POST''
       \<and> tmpl_Template (bind_PathTmpl b) = ''/shop.Items/ListItems''
       \<and> bind_Body b = Some \<lparr>body_FieldPath = []\<rparr>"
    by (rule exI [of _ meth], rule exI [of _ b],
        rule exI [of _ "ex_Registry\<lparr>reg_meths :=
                   (reg_meths ex_Registry)(ext_FQMN ex_Deps ex_Service ex_Md \<mapsto> meth)\<rparr>"])
       (use run b in simp)
  with h1 h2 h3 h4 h5 h6 p show ?thesis by simp
qed

section \<open>Duplicate routes: properties\<close>

lemma methodsWithRoute_member:
  "m \<in> set (svc_Methods svc) \<Longrightarrow> hasRoute v t m \<Longrightarrow>
   md_Name (meth_Desc m) \<in> set (methodsWithRoute svc v t)"
  by (auto simp: methodsWithRoute_def)

text \<open>
  Claim C4. For a service and a route (verb and compiled template string) not yet
  registered for it, the first registration succeeds and the second registration of the
  same route for the same service fails with the duplicate-route error, which names the
  methods of the service that hold the route, among them both colliding methods.
\<close>

theorem duplicate_route_rejected:
  assumes fresh: "(v, t, ServiceCore.truncate svc) \<notin> set (reg_annotations r)"
    and m1: "m1 \<in> set (svc_Methods svc)" "hasRoute v t m1"
    and m2: "m2 \<in> set (svc_Methods svc)" "hasRoute v t m2"
  shows "\<exists>r'. CheckDuplicateAnnotation r v t svc = Inr r'
           \<and> CheckDuplicateAnnotation r' v t svc =
               Inl (ErrDuplicateRoute v t (methodsWithRoute svc v t))
           \<and> md_Name (meth_Desc m1) \<in> set (methodsWithRoute svc v t)
           \<and> md_Name (meth_Desc m2) \<in> set (methodsWithRoute svc v t)"
proof -
  let ?r' = "r\<lparr>reg_annotations := reg_annotations r @ [(v, t, ServiceCore.truncate svc)]\<rparr>"
  have first: "CheckDuplicateAnnotation r v t svc = Inr ?r'"
    using fresh by (simp add: CheckDuplicateAnnotation_def Let_def)
  have second: "CheckDuplicateAnnotation ?r' v t svc =
                  Inl (ErrDuplicateRoute v t (methodsWithRoute svc v t))"
    by (simp add: CheckDuplicateAnnotation_def Let_def)
  show ?thesis
    by (rule exI [of _ ?r'])
       (use first second methodsWithRoute_member [OF m1] methodsWithRoute_member [OF m2] in simp)
qed

text \<open>
  In the loop of \<open>applyTemplate\<close> over the bindings of one method, two bindings with
  the same verb and compiled template string stop the run at the second one.
\<close>

lemma checkBindings_duplicate:
  assumes "(v, t, ServiceCore.truncate svc) \<notin> set (reg_annotations r)"
    and "bind_HTTPMethod b1 = v" and "tmpl_Template (bind_PathTmpl b1) = t"
    and "bind_HTTPMethod b2 = v" and "tmpl_Template (bind_PathTmpl b2) = t"
  shows "checkBindings r svc seen (Some b1 # Some b2 # bs) =
           Inl (ErrDuplicateRoute v t (methodsWithRoute svc v t))"
  using assms by (simp add: CheckDuplicateAnnotation_def Let_def)

text \<open>
  The loops of \<open>applyTemplate\<close> on a service whose two methods both carry the route
  \<open>GET /v1/items\<close>: the second registration stops the run with the duplicate-route
  error.
\<close>

lemma applyTemplate_duplicate_example:
  "applyTemplate ex_Deps ex_Registry ex_DupFile =
     Inl (ErrDuplicateRoute ''GET'' ''/v1/items'' [''ListItems'', ''FindItems''])"
  by (simp add: applyTemplate_def ex_DupFile_def ex_DupService_def ex_ListMethod_def
        ex_FindMethod_def ex_ListBinding_def ex_Meth_def ex_Md_def ex_FindMd_def
        ex_Service_def ex_Deps_def ex_Registry_def CheckDuplicateAnnotation_def
        methodsWithRoute_def hasRoute_def Let_def
        ServiceCore.defs Service.defs MethodCore.defs Method.defs)

theorem duplicate_route_rejected_witness:
  "(''GET'', ''/v1/items'', ServiceCore.truncate ex_DupService) \<notin> set (reg_annotations ex_Registry)
   \<and> ex_ListMethod \<in> set (svc_Methods ex_DupService) \<and> hasRoute ''GET'' ''/v1/items'' ex_ListMethod
   \<and> ex_FindMethod \<in> set (svc_Methods ex_DupService) \<and> hasRoute ''GET'' ''/v1/items'' ex_FindMethod
   \<and> (\<exists>r'. CheckDuplicateAnnotation ex_Registry ''GET'' ''/v1/items'' ex_DupService = Inr r'
          \<and> CheckDuplicateAnnotation r' ''GET'' ''/v1/items'' ex_DupService =
               Inl (ErrDuplicateRoute ''GET'' ''/v1/items'' [''ListItems'', ''FindItems'']))"
proof -
  have h0: "(''GET'', ''/v1/items'', ServiceCore.truncate ex_DupService) \<notin> set (reg_annotations ex_Registry)"
    by (simp add: ex_Registry_def)
  have h1: "ex_ListMethod \<in> set (svc_Methods ex_DupService)"
    by (simp add: ex_DupService_def ServiceCore.defs Service.defs)
  have h2: "hasRoute ''GET'' ''/v1/items'' ex_ListMethod"
    by (simp add: hasRoute_def ex_ListMethod_def ex_ListBinding_def MethodCore.defs Method.defs)
  have h3: "ex_FindMethod \<in> set (svc_Methods ex_DupService)"
    by (simp add: ex_DupService_def ServiceCore.defs Service.defs)
  have h4: "hasRoute ''GET'' ''/v1/items'' ex_FindMethod"
    by (simp add: hasRoute_def ex_FindMethod_def ex_ListBinding_def MethodCore.defs Method.defs)
  have names: "methodsWithRoute ex_DupService ''GET'' ''/v1/items'' = [''ListItems'', ''FindItems'']"
    using h2 h4
    by (simp add: methodsWithRoute_def ex_DupService_def ServiceCore.defs Service.defs
          ex_ListMethod_def ex_FindMethod_def ex_Meth_def ex_Md_def ex_FindMd_def
          MethodCore.defs Method.defs)
  from duplicate_route_rejected [OF h0 h1 h2 h3 h4] names
  obtain r' where
    "CheckDuplicateAnnotation ex_Registry ''GET'' ''/v1/items'' ex_DupService = Inr r'
     \<and> CheckDuplicateAnnotation r' ''GET'' ''/v1/items'' ex_DupService =
          Inl (ErrDuplicateRoute ''GET'' ''/v1/items'' [''ListItems'', ''FindItems''])"
    by auto
  then have "\<exists>r'. CheckDuplicateAnnotation ex_Registry ''GET'' ''/v1/items'' ex_DupService = Inr r'
          \<and> CheckDuplicateAnnotation r' ''GET'' ''/v1/items'' ex_DupService =
               Inl (ErrDuplicateRoute ''GET'' ''/v1/items'' [''ListItems'', ''FindItems''])"
    by (rule exI [of _ r'])
  with h0 h1 h2 h3 h4 show ?thesis by simp
qed

end
